theory Spec2Isabelle
  imports Complex_Main
begin

section \<open>Armadillo containers and their checked operations\<close>

text \<open>
  The two routines work on Armadillo containers of doubles and of integers.  A matrix and
  a cube are modelled as records of their dimensions and an element function; a column
  vector is a list.  Doubles are modelled as exact reals; the special values of doubles
  are followed through one step of the recursions in a section of their own.  Indices
  and dimensions are natural numbers, taken to be small enough for the 32-bit loop
  counters of the source.  Armadillo checks every element access, every
  \<open>col\<close>/\<open>slice\<close> view and the sizes of the operands of an element-wise operation or a
  matrix product (its default configuration); each such check is a branch of the model
  that returns \<open>Inl\<close>.
\<close>

datatype error = IndexOutOfBounds | IncompatibleDimensions | NoElements

definition and_then :: "error + 'a \<Rightarrow> ('a \<Rightarrow> error + 'b) \<Rightarrow> error + 'b" where
  "and_then m f = (case m of Inl e \<Rightarrow> Inl e | Inr x \<Rightarrow> f x)"

text \<open>A counted \<open>for\<close> loop over the listed indices; an error in the body leaves the loop.\<close>

fun for_each :: "nat list \<Rightarrow> (nat \<Rightarrow> 's \<Rightarrow> error + 's) \<Rightarrow> 's \<Rightarrow> error + 's" where
  "for_each [] body s = Inr s"
| "for_each (i # is) body s = and_then (body i s) (for_each is body)"

record 'a mat =
  mat_rows :: nat
  mat_cols :: nat
  mat_at :: "nat \<times> nat \<Rightarrow> 'a"

record 'a cube =
  cube_rows :: nat
  cube_cols :: nat
  cube_slices :: nat
  cube_at :: "nat \<times> nat \<times> nat \<Rightarrow> 'a"

text \<open>\<open>v(i)\<close> on a vector.\<close>

definition vec_get :: "'a list \<Rightarrow> nat \<Rightarrow> error + 'a" where
  "vec_get v i = (if i < length v then Inr (v ! i) else Inl IndexOutOfBounds)"

text \<open>\<open>M(i, j)\<close>, read and written.\<close>

definition mat_get :: "'a mat \<Rightarrow> nat \<Rightarrow> nat \<Rightarrow> error + 'a" where
  "mat_get m i j =
     (if i < mat_rows m \<and> j < mat_cols m then Inr (mat_at m (i, j)) else Inl IndexOutOfBounds)"

definition mat_set :: "'a mat \<Rightarrow> nat \<Rightarrow> nat \<Rightarrow> 'a \<Rightarrow> error + 'a mat" where
  "mat_set m i j v =
     (if i < mat_rows m \<and> j < mat_cols m
      then Inr (m\<lparr>mat_at := (mat_at m)((i, j) := v)\<rparr>) else Inl IndexOutOfBounds)"

text \<open>\<open>M.col(j)\<close>, read and assigned; the assignment checks the length of the vector.\<close>

definition mat_col :: "'a mat \<Rightarrow> nat \<Rightarrow> error + 'a list" where
  "mat_col m j =
     (if j < mat_cols m then Inr (map (\<lambda>i. mat_at m (i, j)) [0..<mat_rows m])
      else Inl IndexOutOfBounds)"

definition mat_set_col :: "'a mat \<Rightarrow> nat \<Rightarrow> 'a list \<Rightarrow> error + 'a mat" where
  "mat_set_col m j v =
     (if \<not> j < mat_cols m then Inl IndexOutOfBounds
      else if length v \<noteq> mat_rows m then Inl IncompatibleDimensions
      else Inr (m\<lparr>mat_at := (\<lambda>(i, j'). if j' = j \<and> i < mat_rows m then v ! i
                                        else mat_at m (i, j'))\<rparr>))"

text \<open>\<open>C(i, j, k)\<close>, read and written.\<close>

definition cube_get :: "'a cube \<Rightarrow> nat \<Rightarrow> nat \<Rightarrow> nat \<Rightarrow> error + 'a" where
  "cube_get c i j k =
     (if i < cube_rows c \<and> j < cube_cols c \<and> k < cube_slices c then Inr (cube_at c (i, j, k))
      else Inl IndexOutOfBounds)"

definition cube_set :: "'a cube \<Rightarrow> nat \<Rightarrow> nat \<Rightarrow> nat \<Rightarrow> 'a \<Rightarrow> error + 'a cube" where
  "cube_set c i j k v =
     (if i < cube_rows c \<and> j < cube_cols c \<and> k < cube_slices c
      then Inr (c\<lparr>cube_at := (cube_at c)((i, j, k) := v)\<rparr>) else Inl IndexOutOfBounds)"

text \<open>\<open>C.slice(k).col(j)\<close>.\<close>

definition cube_slice_col :: "'a cube \<Rightarrow> nat \<Rightarrow> nat \<Rightarrow> error + 'a list" where
  "cube_slice_col c k j =
     (if \<not> k < cube_slices c then Inl IndexOutOfBounds
      else if \<not> j < cube_cols c then Inl IndexOutOfBounds
      else Inr (map (\<lambda>i. cube_at c (i, j, k)) [0..<cube_rows c]))"

text \<open>Element-wise \<open>a + b\<close> of two vectors.\<close>

definition vec_add :: "real list \<Rightarrow> real list \<Rightarrow> error + real list" where
  "vec_add a b =
     (if length a = length b then Inr (map (\<lambda>i. a ! i + b ! i) [0..<length a])
      else Inl IncompatibleDimensions)"

text \<open>
  The forward routine reads its symbol codes from a cube of signed integers and uses
  them as unsigned indices.  A negative code converts to an unsigned value of at least
  \<open>2 ^ 31\<close>, beyond every dimension, so the access is out of bounds.
\<close>

definition cube_get_signed :: "'a cube \<Rightarrow> nat \<Rightarrow> int \<Rightarrow> nat \<Rightarrow> error + 'a" where
  "cube_get_signed c i j k = (if j < 0 then Inl IndexOutOfBounds else cube_get c i (nat j) k)"

section \<open>logSumExp\<close>

text \<open>
  Modelled from the spec: the function \<open>logSumExp\<close> of this repository is declared in
  \<open>seqHMM.h\<close> and defined outside the two source files.  The spec requires: find the
  maximum element \<open>m\<close>; return \<open>m + log (\<Sum>i. exp (x i - m))\<close>; the vector must not be
  empty.
\<close>

definition logSumExp :: "real list \<Rightarrow> error + real" where
  "logSumExp x =
     (if x = [] then Inl NoElements
      else let m = Max (set x) in Inr (m + ln (sum_list (map (\<lambda>v. exp (v - m)) x))))"

section \<open>The forward algorithm\<close>

text \<open>
  \<open>internalForward.cpp\<close>, the loop over the channels:
  \<open>for r < obs.n_slices: alpha(i,t,k) += emission(i, obs(k,t,r), r)\<close>.
\<close>

definition add_emissions ::
  "real cube \<Rightarrow> int cube \<Rightarrow> nat \<Rightarrow> nat \<Rightarrow> nat \<Rightarrow> real cube \<Rightarrow> error + real cube" where
  "add_emissions emission obs i t k alpha =
     for_each [0..<cube_slices obs] (\<lambda>r alpha.
       and_then (cube_get obs k t r) (\<lambda>sym.
       and_then (cube_get_signed emission i sym r) (\<lambda>e.
       and_then (cube_get alpha i t k) (\<lambda>a.
       cube_set alpha i t k (a + e))))) alpha"

text \<open>The first time step of sequence \<open>k\<close> (lines 9 to 14).\<close>

definition forward_init ::
  "real cube \<Rightarrow> real list \<Rightarrow> int cube \<Rightarrow> nat \<Rightarrow> real cube \<Rightarrow> error + real cube" where
  "forward_init emission init obs k alpha =
     for_each [0..<cube_rows emission] (\<lambda>i alpha.
       and_then (vec_get init i) (\<lambda>v.
       and_then (cube_set alpha i 0 k v) (\<lambda>alpha.
       add_emissions emission obs i 0 k alpha))) alpha"

text \<open>One later time step \<open>t\<close> of sequence \<open>k\<close> (lines 16 to 21).\<close>

definition forward_step ::
  "real mat \<Rightarrow> real cube \<Rightarrow> int cube \<Rightarrow> nat \<Rightarrow> nat \<Rightarrow> real cube \<Rightarrow> error + real cube" where
  "forward_step transition emission obs k t alpha =
     for_each [0..<mat_rows transition] (\<lambda>i alpha.
       and_then (cube_slice_col alpha k (t - 1)) (\<lambda>prev.
       and_then (mat_col transition i) (\<lambda>tr.
       and_then (vec_add prev tr) (\<lambda>s.
       and_then (logSumExp s) (\<lambda>l.
       and_then (cube_set alpha i t k l) (\<lambda>alpha.
       add_emissions emission obs i t k alpha)))))) alpha"

text \<open>The whole routine: \<open>alpha\<close> is passed in, filled in place and returned.\<close>

definition internalForward ::
  "real mat \<Rightarrow> real cube \<Rightarrow> real list \<Rightarrow> int cube \<Rightarrow> real cube \<Rightarrow> error + real cube" where
  "internalForward transition emission init obs alpha =
     for_each [0..<cube_rows obs] (\<lambda>k alpha.
       and_then (forward_init emission init obs k alpha)
         (for_each [1..<cube_cols obs] (forward_step transition emission obs k))) alpha"


section \<open>The Viterbi algorithm for mixture models\<close>

subsection \<open>More Armadillo operations\<close>

text \<open>A freshly constructed matrix.  The entries are modelled as a fixed value; the
  routine writes every entry it later reads.\<close>

definition new_mat :: "nat \<Rightarrow> nat \<Rightarrow> 'a \<Rightarrow> 'a mat" where
  "new_mat r c v = \<lparr>mat_rows = r, mat_cols = c, mat_at = (\<lambda>p. v)\<rparr>"

text \<open>The matrix product \<open>A * B\<close>.\<close>

definition mat_mult :: "real mat \<Rightarrow> real mat \<Rightarrow> error + real mat" where
  "mat_mult a b =
     (if mat_cols a = mat_rows b
      then Inr \<lparr>mat_rows = mat_rows a, mat_cols = mat_cols b,
                mat_at = (\<lambda>(i, j). \<Sum>l<mat_cols a. mat_at a (i, l) * mat_at b (l, j))\<rparr>
      else Inl IncompatibleDimensions)"

text \<open>Element-wise \<open>exp\<close> and \<open>log\<close>, and the transpose \<open>.t()\<close>.\<close>

definition mat_exp :: "real mat \<Rightarrow> real mat" where
  "mat_exp m = m\<lparr>mat_at := (\<lambda>p. exp (mat_at m p))\<rparr>"

definition mat_log :: "real mat \<Rightarrow> real mat" where
  "mat_log m = m\<lparr>mat_at := (\<lambda>p. ln (mat_at m p))\<rparr>"

definition mat_t :: "'a mat \<Rightarrow> 'a mat" where
  "mat_t m = \<lparr>mat_rows = mat_cols m, mat_cols = mat_rows m, mat_at = (\<lambda>(i, j). mat_at m (j, i))\<rparr>"

text \<open>\<open>sum(M, 0)\<close>: the sum of every column, as a row vector.\<close>

definition col_sums :: "real mat \<Rightarrow> real list" where
  "col_sums m = map (\<lambda>j. \<Sum>i<mat_rows m. mat_at m (i, j)) [0..<mat_cols m]"

text \<open>\<open>M.each_row() /= v\<close>: every row is divided, element by element, by the row vector.\<close>

definition each_row_div :: "real mat \<Rightarrow> real list \<Rightarrow> error + real mat" where
  "each_row_div m v =
     (if length v = mat_cols m
      then Inr (m\<lparr>mat_at := (\<lambda>(i, j). if j < mat_cols m then mat_at m (i, j) / v ! j
                                        else mat_at m (i, j))\<rparr>)
      else Inl IncompatibleDimensions)"

text \<open>
  \<open>max\<close> of a vector together with the index of the maximum.  Armadillo scans the vector
  from the front, starting from the most negative value, and replaces the best element
  only by a strictly greater one; an empty vector is an error.  Every real is greater
  than that start value, so the scan over reals starts with the first element as the
  best one.
\<close>

fun max_scan :: "real list \<Rightarrow> nat \<Rightarrow> real \<Rightarrow> nat \<Rightarrow> real \<times> nat" where
  "max_scan [] i best ib = (best, ib)"
| "max_scan (x # xs) i best ib =
     (if x > best then max_scan xs (Suc i) x i else max_scan xs (Suc i) best ib)"

definition arma_max :: "real list \<Rightarrow> error + real \<times> nat" where
  "arma_max x = (case x of [] \<Rightarrow> Inl NoElements | v # vs \<Rightarrow> Inr (max_scan vs 1 v 0))"

subsection \<open>reparma\<close>

text \<open>
  Modelled from the spec: the function \<open>reparma\<close> of this repository is defined outside
  the two source files.  The spec says that the states are grouped contiguously by
  cluster, with the group sizes given by \<open>numberOfStates\<close>, and that each cluster's
  log-weight is broadcast to every state of that cluster.  A weight vector with fewer
  entries than there are clusters has no weight to broadcast for some cluster.
\<close>

definition reparma :: "real list \<Rightarrow> nat list \<Rightarrow> error + real list" where
  "reparma x y =
     (if length x < length y then Inl IndexOutOfBounds
      else Inr (concat (map (\<lambda>(w, n). replicate n w) (zip x y))))"

subsection \<open>viterbix\<close>

text \<open>Lines 14 to 16: the mixture log-weights, one row per cluster, one column per sequence.\<close>

definition mixture_weights :: "real mat \<Rightarrow> real mat \<Rightarrow> error + real mat" where
  "mixture_weights coef X =
     and_then (mat_mult X coef) (\<lambda>xb.
       let w = mat_t (mat_exp xb) in each_row_div w (col_sums w))"

definition mixture_lweights :: "real mat \<Rightarrow> real mat \<Rightarrow> error + real mat" where
  "mixture_lweights coef X = and_then (mixture_weights coef X) (\<lambda>w. Inr (mat_log w))"

text \<open>Lines 22 to 25: the first column of \<open>delta\<close>.\<close>

definition viterbi_init ::
  "real cube \<Rightarrow> real list \<Rightarrow> nat cube \<Rightarrow> real mat \<Rightarrow> nat list \<Rightarrow> nat \<Rightarrow> real mat
     \<Rightarrow> error + real mat" where
  "viterbi_init emission init obs lweights numberOfStates k delta =
     and_then (mat_col lweights k) (\<lambda>w.
     and_then (reparma w numberOfStates) (\<lambda>rw.
     and_then (vec_add init rw) (\<lambda>d0.
     and_then (mat_set_col delta 0 d0)
       (for_each [0..<cube_slices emission] (\<lambda>r delta.
          and_then (cube_get obs r 0 k) (\<lambda>sym.
          and_then (cube_slice_col emission r sym) (\<lambda>e.
          and_then (mat_col delta 0) (\<lambda>d.
          and_then (vec_add d e) (\<lambda>d'.
          mat_set_col delta 0 d')))))))))"

text \<open>Lines 31 to 35: the entry of state \<open>j\<close> at time \<open>t\<close>.\<close>

definition viterbi_entry ::
  "real mat \<Rightarrow> real cube \<Rightarrow> nat cube \<Rightarrow> nat \<Rightarrow> nat \<Rightarrow> nat \<Rightarrow> real mat \<times> nat mat
     \<Rightarrow> error + real mat \<times> nat mat" where
  "viterbi_entry transition emission obs k t j = (\<lambda>(delta, phi).
     and_then (mat_col delta (t - 1)) (\<lambda>d.
     and_then (mat_col transition j) (\<lambda>tr.
     and_then (vec_add d tr) (\<lambda>s.
     and_then (arma_max s) (\<lambda>(m, im).
     and_then (mat_set phi j t im) (\<lambda>phi.
     and_then (mat_get phi j t) (\<lambda>p.
     and_then (mat_get delta p (t - 1)) (\<lambda>a.
     and_then (mat_get transition p j) (\<lambda>b.
     and_then (mat_set delta j t (a + b)) (\<lambda>delta.
     and_then (for_each [0..<cube_slices emission] (\<lambda>r delta.
                 and_then (cube_get obs r t k) (\<lambda>sym.
                 and_then (cube_get emission j sym r) (\<lambda>e.
                 and_then (mat_get delta j t) (\<lambda>a.
                 mat_set delta j t (a + e))))) delta)
       (\<lambda>delta. Inr (delta, phi))))))))))))"

text \<open>Lines 19 to 37: the tables \<open>delta\<close> and \<open>phi\<close> of sequence \<open>k\<close>.\<close>

definition viterbi_tables ::
  "real mat \<Rightarrow> real cube \<Rightarrow> real list \<Rightarrow> nat cube \<Rightarrow> real mat \<Rightarrow> nat list \<Rightarrow> nat
     \<Rightarrow> error + real mat \<times> nat mat" where
  "viterbi_tables transition emission init obs lweights numberOfStates k =
     (let delta = new_mat (cube_rows emission) (cube_cols obs) 0;
          phi = new_mat (cube_rows emission) (cube_cols obs) 0
      in and_then (viterbi_init emission init obs lweights numberOfStates k delta) (\<lambda>delta.
         and_then (mat_set_col phi 0 (replicate (mat_rows phi) 0)) (\<lambda>phi.
         for_each [1..<cube_cols obs] (\<lambda>t.
           for_each [0..<cube_rows emission] (viterbi_entry transition emission obs k t))
           (delta, phi))))"

text \<open>
  Lines 40 to 44: the last state, the walk back along \<open>phi\<close>, and the log-probability.
  \<open>obs.n_cols - 1\<close> is unsigned: for no time step at all it wraps around to the largest
  index, which is out of bounds.  The loop counter \<open>t\<close> is signed and runs from
  \<open>obs.n_cols - 2\<close> down to \<open>0\<close>.
\<close>

definition viterbi_path ::
  "nat cube \<Rightarrow> nat \<Rightarrow> real mat \<Rightarrow> nat mat \<Rightarrow> nat mat \<times> real list \<Rightarrow> error + nat mat \<times> real list" where
  "viterbi_path obs k delta phi = (\<lambda>(q, logp).
     if cube_cols obs = 0 then Inl IndexOutOfBounds
     else
       and_then (mat_col delta (cube_cols obs - 1)) (\<lambda>d.
       and_then (arma_max d) (\<lambda>(m, im).
       and_then (mat_set q k (cube_cols obs - 1) im) (\<lambda>q.
       and_then (for_each (rev [0..<cube_cols obs - 1]) (\<lambda>t q.
                   and_then (mat_get q k (t + 1)) (\<lambda>s.
                   and_then (mat_get phi s (t + 1)) (\<lambda>p.
                   mat_set q k t p))) q) (\<lambda>q.
       and_then (mat_col delta (cube_cols obs - 1)) (\<lambda>d.
       and_then (arma_max d) (\<lambda>(m, im).
       if k < length logp then Inr (q, logp[k := m]) else Inl IndexOutOfBounds)))))))"

text \<open>The whole routine; it returns the paths \<open>q\<close> and the log-probabilities \<open>logp\<close>.\<close>

definition viterbix ::
  "real mat \<Rightarrow> real cube \<Rightarrow> real list \<Rightarrow> nat cube \<Rightarrow> real mat \<Rightarrow> real mat \<Rightarrow> nat list
     \<Rightarrow> error + nat mat \<times> real list" where
  "viterbix transition emission init obs coef X numberOfStates =
     (let q = new_mat (cube_slices obs) (cube_cols obs) 0;
          logp = replicate (cube_slices obs) 0
      in and_then (mixture_lweights coef X) (\<lambda>lweights.
         for_each [0..<cube_slices obs] (\<lambda>k ql.
           and_then (viterbi_tables transition emission init obs lweights numberOfStates k)
             (\<lambda>(delta, phi). viterbi_path obs k delta phi ql))
           (q, logp)))"


section \<open>What the forward table has to hold\<close>

text \<open>The sum over the channels of the emission log-probabilities of sequence \<open>k\<close> at
  time \<open>t\<close> in state \<open>i\<close>.\<close>

definition emission_sum :: "real cube \<Rightarrow> int cube \<Rightarrow> nat \<Rightarrow> nat \<Rightarrow> nat \<Rightarrow> real" where
  "emission_sum emission obs i t k =
     (\<Sum>r<cube_slices obs. cube_at emission (i, nat (cube_at obs (k, t, r)), r))"


text \<open>The recursion of the forward algorithm for one entry, read off a table \<open>alpha\<close>.\<close>

definition forward_recursion :: "real mat \<Rightarrow> real cube \<Rightarrow> int cube \<Rightarrow> real cube \<Rightarrow> nat \<Rightarrow> nat \<Rightarrow> nat \<Rightarrow> error + real" where
  "forward_recursion transition emission obs alpha k t i =
     and_then (logSumExp (map (\<lambda>j. cube_at alpha (j, t - 1, k) + mat_at transition (j, i))
                   [0..<cube_rows emission]))
       (\<lambda>l. Inr (l + emission_sum emission obs i t k))"


text \<open>Slice \<open>k\<close> of \<open>alpha\<close> obeys the initialization and, below time \<open>n\<close>, the recursion.\<close>

definition forward_filled ::
  "real mat \<Rightarrow> real cube \<Rightarrow> real list \<Rightarrow> int cube \<Rightarrow> real cube \<Rightarrow> nat \<Rightarrow> nat \<Rightarrow> bool" where
  "forward_filled transition emission init obs alpha k n \<longleftrightarrow>
     (\<forall>i<cube_rows emission. cube_at alpha (i, 0, k) = init ! i + emission_sum emission obs i 0 k) \<and>
     (\<forall>t. 0 < t \<and> t < n \<longrightarrow> (\<forall>i<cube_rows emission.
        forward_recursion transition emission obs alpha k t i = Inr (cube_at alpha (i, t, k))))"


text \<open>
  The inputs the forward routine is written for: the dimensions fit each other, there is
  at least one time step, and every symbol code indexes the symbol axis of \<open>emission\<close>.
\<close>

definition forward_ok ::
  "real mat \<Rightarrow> real cube \<Rightarrow> real list \<Rightarrow> int cube \<Rightarrow> real cube \<Rightarrow> bool" where
  "forward_ok transition emission init obs alpha \<longleftrightarrow>
     mat_rows transition = cube_rows emission \<and> mat_cols transition = cube_rows emission \<and>
     length init = cube_rows emission \<and> cube_slices emission = cube_slices obs \<and>
     cube_rows alpha = cube_rows emission \<and> cube_cols alpha = cube_cols obs \<and>
     cube_slices alpha = cube_rows obs \<and> 0 < cube_cols obs \<and>
     (\<forall>k<cube_rows obs. \<forall>t<cube_cols obs. \<forall>r<cube_slices obs.
        0 \<le> cube_at obs (k, t, r) \<and> cube_at obs (k, t, r) < int (cube_cols emission))"

definition same_dims :: "'a cube \<Rightarrow> 'a cube \<Rightarrow> bool" where
  "same_dims a b \<longleftrightarrow>
     cube_rows a = cube_rows b \<and> cube_cols a = cube_cols b \<and> cube_slices a = cube_slices b"


section \<open>What the Viterbi tables and the path have to be\<close>

text \<open>The sum over the channels of the emission log-probabilities, with the observations
  laid out as \<open>(channel, time, sequence)\<close>.\<close>

definition viterbi_emission_sum :: "real cube \<Rightarrow> nat cube \<Rightarrow> nat \<Rightarrow> nat \<Rightarrow> nat \<Rightarrow> real" where
  "viterbi_emission_sum emission obs j t k =
     (\<Sum>r<cube_slices emission. cube_at emission (j, cube_at obs (r, t, k), r))"

text \<open>The cluster of a state: the states are grouped contiguously, with the group sizes
  \<open>numberOfStates\<close>.\<close>

fun cluster_of :: "nat list \<Rightarrow> nat \<Rightarrow> nat" where
  "cluster_of [] j = 0"
| "cluster_of (n # ns) j = (if j < n then 0 else Suc (cluster_of ns (j - n)))"

text \<open>\<open>im\<close> is the first position of the maximum of the vector \<open>s\<close>.\<close>

definition first_max :: "real list \<Rightarrow> nat \<Rightarrow> bool" where
  "first_max s im \<longleftrightarrow>
     im < length s \<and> (\<forall>i<length s. s ! i \<le> s ! im) \<and> (\<forall>i<im. s ! i < s ! im)"

text \<open>The linear predictor \<open>X * coef\<close> of sequence \<open>k\<close> and cluster \<open>c\<close>.\<close>

definition linear_predictor :: "real mat \<Rightarrow> real mat \<Rightarrow> nat \<Rightarrow> nat \<Rightarrow> real" where
  "linear_predictor coef X k c = (\<Sum>l<mat_cols X. mat_at X (k, l) * mat_at coef (l, c))"

text \<open>The tables of sequence \<open>k\<close> obey the initialization and the recursion of the
  Viterbi algorithm.\<close>

definition viterbi_filled ::
  "real mat \<Rightarrow> real cube \<Rightarrow> real list \<Rightarrow> nat cube \<Rightarrow> real mat \<Rightarrow> nat list \<Rightarrow> nat
     \<Rightarrow> real mat \<Rightarrow> nat mat \<Rightarrow> bool" where
  "viterbi_filled transition emission init obs lweights numberOfStates k delta phi \<longleftrightarrow>
     mat_rows delta = cube_rows emission \<and> mat_cols delta = cube_cols obs \<and>
     mat_rows phi = cube_rows emission \<and> mat_cols phi = cube_cols obs \<and>
     (\<forall>j<cube_rows emission.
        mat_at delta (j, 0) =
          init ! j + mat_at lweights (cluster_of numberOfStates j, k) +
          viterbi_emission_sum emission obs j 0 k) \<and>
     (\<forall>t. 1 \<le> t \<and> t < cube_cols obs \<longrightarrow> (\<forall>j<cube_rows emission.
        first_max (map (\<lambda>i. mat_at delta (i, t - 1) + mat_at transition (i, j))
                     [0..<cube_rows emission]) (mat_at phi (j, t)) \<and>
        mat_at delta (j, t) =
          mat_at delta (mat_at phi (j, t), t - 1) + mat_at transition (mat_at phi (j, t), j) +
          viterbi_emission_sum emission obs j t k))"

text \<open>Row \<open>k\<close> of \<open>q\<close> and entry \<open>k\<close> of \<open>logp\<close> are read off the tables: the last state is
  the first maximum of the last column of \<open>delta\<close>, \<open>logp\<close> is that maximum, and every
  earlier state is the back pointer of its successor.\<close>

definition viterbi_traced ::
  "nat cube \<Rightarrow> nat \<Rightarrow> real mat \<Rightarrow> nat mat \<Rightarrow> nat mat \<Rightarrow> real list \<Rightarrow> bool" where
  "viterbi_traced obs k delta phi q logp \<longleftrightarrow>
     first_max (map (\<lambda>j. mat_at delta (j, cube_cols obs - 1)) [0..<mat_rows delta])
       (mat_at q (k, cube_cols obs - 1)) \<and>
     logp ! k = mat_at delta (mat_at q (k, cube_cols obs - 1), cube_cols obs - 1) \<and>
     (\<forall>t. t + 1 < cube_cols obs \<longrightarrow> mat_at q (k, t) = mat_at phi (mat_at q (k, t + 1), t + 1))"

text \<open>
  The joint log-probability of a state path for sequence \<open>k\<close>: the initial
  log-probability of its first state, weighted by the log-weight of the cluster of that
  state, the transition log-probabilities along the path, and the emission
  log-probabilities of the observations in every channel.
\<close>

definition path_logprob ::
  "real mat \<Rightarrow> real cube \<Rightarrow> real list \<Rightarrow> nat cube \<Rightarrow> real mat \<Rightarrow> nat list \<Rightarrow> nat
     \<Rightarrow> nat list \<Rightarrow> real" where
  "path_logprob transition emission init obs lweights numberOfStates k path =
     init ! (path ! 0) + mat_at lweights (cluster_of numberOfStates (path ! 0), k) +
     viterbi_emission_sum emission obs (path ! 0) 0 k +
     (\<Sum>t = 1..<length path.
        mat_at transition (path ! (t - 1), path ! t) +
        viterbi_emission_sum emission obs (path ! t) t k)"

text \<open>
  The inputs \<open>viterbix\<close> is written for: the dimensions fit each other, there is at least
  one state and one time step, the cluster sizes add up to the number of states, there
  is one column of coefficients per cluster and one row of covariates per sequence, and
  every symbol code indexes the symbol axis of \<open>emission\<close>.
\<close>

definition viterbi_ok ::
  "real mat \<Rightarrow> real cube \<Rightarrow> real list \<Rightarrow> nat cube \<Rightarrow> real mat \<Rightarrow> real mat \<Rightarrow> nat list \<Rightarrow> bool" where
  "viterbi_ok transition emission init obs coef X numberOfStates \<longleftrightarrow>
     mat_rows transition = cube_rows emission \<and> mat_cols transition = cube_rows emission \<and>
     length init = cube_rows emission \<and> sum_list numberOfStates = cube_rows emission \<and>
     0 < cube_rows emission \<and> cube_rows obs = cube_slices emission \<and> 0 < cube_cols obs \<and>
     mat_cols X = mat_rows coef \<and> mat_rows X = cube_slices obs \<and>
     length numberOfStates = mat_cols coef \<and>
     (\<forall>r<cube_rows obs. \<forall>t<cube_cols obs. \<forall>k<cube_slices obs.
        cube_at obs (r, t, k) < cube_cols emission)"

text \<open>What \<open>viterbix\<close> returns for sequence \<open>k\<close>, in terms of the tables of that sequence:
  the tables obey the recursion, the path and the log-probability are read off them, and
  the path consists of states.\<close>

definition viterbi_result ::
  "real mat \<Rightarrow> real cube \<Rightarrow> real list \<Rightarrow> nat cube \<Rightarrow> real mat \<Rightarrow> nat list \<Rightarrow> nat
     \<Rightarrow> nat mat \<Rightarrow> real list \<Rightarrow> bool" where
  "viterbi_result transition emission init obs lweights numberOfStates k q logp \<longleftrightarrow>
     (case viterbi_tables transition emission init obs lweights numberOfStates k of
        Inl e \<Rightarrow> False
      | Inr (delta, phi) \<Rightarrow>
          viterbi_filled transition emission init obs lweights numberOfStates k delta phi \<and>
          viterbi_traced obs k delta phi q logp \<and>
          (\<forall>t<cube_cols obs. mat_at q (k, t) < cube_rows emission))"

section \<open>The special values of doubles\<close>

text \<open>
  The tables hold doubles, and a log-probability of an impossible event is the double
  \<open>-infinity\<close>.  To follow such values through one step of the two recursions, a double is
  modelled here as a finite value, one of the two infinities, or NaN, with the
  arithmetic of IEEE 754 on the special values and exact arithmetic on the finite ones
  (no rounding, no overflow).
\<close>

datatype dbl = Finite real | PlusInf | MinusInf | NaN


text \<open>Addition: NaN is absorbing, and the sum of the two infinities is NaN.\<close>

fun dbl_add :: "dbl \<Rightarrow> dbl \<Rightarrow> dbl" where
  "dbl_add NaN y = NaN"
| "dbl_add x NaN = NaN"
| "dbl_add PlusInf MinusInf = NaN"
| "dbl_add MinusInf PlusInf = NaN"
| "dbl_add PlusInf y = PlusInf"
| "dbl_add x PlusInf = PlusInf"
| "dbl_add MinusInf y = MinusInf"
| "dbl_add x MinusInf = MinusInf"
| "dbl_add (Finite a) (Finite b) = Finite (a + b)"






















section \<open>A worked example\<close>

text \<open>
  Two states, two symbols, one channel, two time steps, one sequence, with the
  observations \<open>0, 1\<close>.
\<close>

definition ex_transition :: "real mat" where
  "ex_transition = \<lparr>mat_rows = 2, mat_cols = 2,
     mat_at = (\<lambda>(i, j). ln (if i = 0 then (if j = 0 then 9 / 10 else 1 / 10)
                             else (if j = 0 then 2 / 10 else 8 / 10)))\<rparr>"

definition ex_emission :: "real cube" where
  "ex_emission = \<lparr>cube_rows = 2, cube_cols = 2, cube_slices = 1,
     cube_at = (\<lambda>(i, v, r). ln (if i = 0 then (if v = 0 then 7 / 10 else 3 / 10)
                                 else (if v = 0 then 4 / 10 else 6 / 10)))\<rparr>"

definition ex_init :: "real list" where
  "ex_init = [ln (6 / 10), ln (4 / 10)]"

definition ex_obs_forward :: "int cube" where
  "ex_obs_forward = \<lparr>cube_rows = 1, cube_cols = 2, cube_slices = 1,
     cube_at = (\<lambda>(k, t, r). int t)\<rparr>"

definition ex_alpha :: "real cube" where
  "ex_alpha = \<lparr>cube_rows = 2, cube_cols = 2, cube_slices = 1, cube_at = (\<lambda>p. 0)\<rparr>"

text \<open>The same observations laid out as \<open>(channel, time, sequence)\<close>, and a single
  cluster of two states with one covariate.\<close>

definition ex_obs_viterbi :: "nat cube" where
  "ex_obs_viterbi = \<lparr>cube_rows = 1, cube_cols = 2, cube_slices = 1,
     cube_at = (\<lambda>(r, t, k). t)\<rparr>"

definition ex_coef :: "real mat" where
  "ex_coef = \<lparr>mat_rows = 1, mat_cols = 1, mat_at = (\<lambda>p. 0)\<rparr>"

definition ex_X :: "real mat" where
  "ex_X = \<lparr>mat_rows = 1, mat_cols = 1, mat_at = (\<lambda>p. 1)\<rparr>"

text \<open>A second batch of two sequences whose first sequence is the one above.\<close>

definition ex_obs_forward2 :: "int cube" where
  "ex_obs_forward2 = \<lparr>cube_rows = 2, cube_cols = 2, cube_slices = 1,
     cube_at = (\<lambda>(k, t, r). if k = 0 then int t else 0)\<rparr>"

definition ex_alpha2 :: "real cube" where
  "ex_alpha2 = \<lparr>cube_rows = 2, cube_cols = 2, cube_slices = 2, cube_at = (\<lambda>p. 1)\<rparr>"

definition ex_obs_viterbi2 :: "nat cube" where
  "ex_obs_viterbi2 = \<lparr>cube_rows = 1, cube_cols = 2, cube_slices = 2,
     cube_at = (\<lambda>(r, t, k). if k = 0 then t else 0)\<rparr>"

definition ex_X2 :: "real mat" where
  "ex_X2 = \<lparr>mat_rows = 2, mat_cols = 1, mat_at = (\<lambda>(k, l). if k = 0 then 1 else 5)\<rparr>"





section \<open>Loops and the error monad\<close>

lemma and_then_Inr [simp]: "and_then (Inr x) f = f x"
  by (simp add: and_then_def)

lemma and_then_Inl [simp]: "and_then (Inl e) f = Inl e"
  by (simp add: and_then_def)

lemma for_each_append:
  "for_each (xs @ ys) body s = and_then (for_each xs body s) (for_each ys body)"
  by (induction xs arbitrary: s) (auto simp: and_then_def split: sum.splits)

lemma for_each_single: "for_each [i] body = body i"
  by (rule ext) (simp add: and_then_def split: sum.splits)

lemma for_each_upt_Suc:
  "a \<le> b \<Longrightarrow> for_each [a..<Suc b] body s = and_then (for_each [a..<b] body s) (body b)"
  by (simp add: for_each_append for_each_single)

lemma for_each_upt_inv:
  assumes "a \<le> b" and "I a s"
    and "\<And>i s. a \<le> i \<Longrightarrow> i < b \<Longrightarrow> I i s \<Longrightarrow> \<exists>s'. body i s = Inr s' \<and> I (Suc i) s'"
  shows "\<exists>s'. for_each [a..<b] body s = Inr s' \<and> I b s'"
  using assms(1,3)
proof (induction b rule: dec_induct)
  case base
  then show ?case using assms(2) by simp
next
  case (step n)
  then obtain s1 where s1: "for_each [a..<n] body s = Inr s1" "I n s1"
    by (metis less_Suc_eq)
  from step.prems[OF step.hyps(1) _ s1(2)] obtain s2 where "body n s1 = Inr s2" "I (Suc n) s2"
    by auto
  then show ?case using s1 step.hyps(1) by (simp only: for_each_upt_Suc and_then_Inr) simp
qed


section \<open>The forward table is filled by the recursion\<close>

lemma add_emissions_post:
  assumes "i < cube_rows alpha" "t < cube_cols alpha" "k < cube_slices alpha"
    and "k < cube_rows obs" "t < cube_cols obs"
    and "i < cube_rows emission" "cube_slices obs \<le> cube_slices emission"
    and sym: "\<forall>r<cube_slices obs. 0 \<le> cube_at obs (k, t, r) \<and> cube_at obs (k, t, r) < int (cube_cols emission)"
  shows "\<exists>a'. add_emissions emission obs i t k alpha = Inr a' \<and> same_dims a' alpha \<and>
      cube_at a' (i, t, k) = cube_at alpha (i, t, k) + emission_sum emission obs i t k \<and>
      (\<forall>p. p \<noteq> (i, t, k) \<longrightarrow> cube_at a' p = cube_at alpha p)"
  unfolding add_emissions_def emission_sum_def
proof (rule for_each_upt_inv[where I = "\<lambda>n a'. same_dims a' alpha \<and>
      cube_at a' (i, t, k) = cube_at alpha (i, t, k) +
         (\<Sum>r<n. cube_at emission (i, nat (cube_at obs (k, t, r)), r)) \<and>
      (\<forall>p. p \<noteq> (i, t, k) \<longrightarrow> cube_at a' p = cube_at alpha p)"], goal_cases)
  case 1
  show ?case by simp
next
  case 2
  show ?case by (simp add: same_dims_def)
next
  case (3 r a)
  from sym 3(2) have "0 \<le> cube_at obs (k, t, r)" "nat (cube_at obs (k, t, r)) < cube_cols emission"
    by auto
  with 3 assms(1-7) show ?case
    by (simp add: cube_get_def cube_get_signed_def cube_set_def same_dims_def add.assoc)
qed


lemma vec_add_upt:
  "vec_add (map f [0..<n]) (map g [0..<n]) = Inr (map (\<lambda>j. f j + g j) [0..<n])"
  by (simp add: vec_add_def)

lemma logSumExp_ok: "x \<noteq> [] \<Longrightarrow> \<exists>l. logSumExp x = Inr l"
  by (simp add: logSumExp_def Let_def)

lemma forward_init_post:
  assumes ok: "forward_ok transition emission init obs alpha0" and d: "same_dims alpha alpha0"
    and k: "k < cube_rows obs"
  shows "\<exists>a'. forward_init emission init obs k alpha = Inr a' \<and> same_dims a' alpha0 \<and>
      (\<forall>i<cube_rows emission. cube_at a' (i, 0, k) = init ! i + emission_sum emission obs i 0 k) \<and>
      (\<forall>i t k'. t \<noteq> 0 \<or> k' \<noteq> k \<longrightarrow> cube_at a' (i, t, k') = cube_at alpha (i, t, k'))"
  unfolding forward_init_def
proof (rule for_each_upt_inv[where I = "\<lambda>n a'. same_dims a' alpha0 \<and>
      (\<forall>i<n. cube_at a' (i, 0, k) = init ! i + emission_sum emission obs i 0 k) \<and>
      (\<forall>i t k'. t \<noteq> 0 \<or> k' \<noteq> k \<longrightarrow> cube_at a' (i, t, k') = cube_at alpha (i, t, k'))"], goal_cases)
  case 1
  show ?case by simp
next
  case 2
  show ?case using d by simp
next
  case (3 i a)
  then have da: "same_dims a alpha0" by simp
  have iv: "vec_get init i = Inr (init ! i)"
    using ok 3(2) by (simp add: vec_get_def forward_ok_def)
  define a1 where "a1 = a\<lparr>cube_at := (cube_at a)((i, 0, k) := init ! i)\<rparr>"
  have a1: "cube_set a i 0 k (init ! i) = Inr a1" "same_dims a1 alpha0"
    "cube_at a1 = (cube_at a)((i, 0, k) := init ! i)"
    using ok da 3(2) k by (simp_all add: a1_def cube_set_def forward_ok_def same_dims_def)
  have "\<exists>a'. add_emissions emission obs i 0 k a1 = Inr a' \<and> same_dims a' a1 \<and>
      cube_at a' (i, 0, k) = cube_at a1 (i, 0, k) + emission_sum emission obs i 0 k \<and>
      (\<forall>p. p \<noteq> (i, 0, k) \<longrightarrow> cube_at a' p = cube_at a1 p)"
    using ok a1(2) 3(2) k by (intro add_emissions_post) (simp_all add: forward_ok_def same_dims_def)
  then obtain a2 where a2: "add_emissions emission obs i 0 k a1 = Inr a2" "same_dims a2 a1"
      "cube_at a2 (i, 0, k) = cube_at a1 (i, 0, k) + emission_sum emission obs i 0 k"
      "\<forall>p. p \<noteq> (i, 0, k) \<longrightarrow> cube_at a2 p = cube_at a1 p"
    by blast
  have "same_dims a2 alpha0" using a2(2) a1(2) by (simp add: same_dims_def)
  moreover have "\<forall>j<Suc i. cube_at a2 (j, 0, k) = init ! j + emission_sum emission obs j 0 k"
    using a2(3,4) a1(3) 3(3) by (auto simp: less_Suc_eq)
  moreover have "\<forall>j t k'. t \<noteq> 0 \<or> k' \<noteq> k \<longrightarrow> cube_at a2 (j, t, k') = cube_at alpha (j, t, k')"
    using a2(4) a1(3) 3(3) by auto
  ultimately show ?case using iv a1(1) a2(1) by simp
qed

lemma forward_step_post:
  assumes ok: "forward_ok transition emission init obs alpha0" and d: "same_dims alpha alpha0"
    and k: "k < cube_rows obs" and t: "0 < t" "t < cube_cols obs"
  shows "\<exists>a'. forward_step transition emission obs k t alpha = Inr a' \<and> same_dims a' alpha0 \<and>
      (\<forall>i<cube_rows emission.
         forward_recursion transition emission obs alpha k t i = Inr (cube_at a' (i, t, k))) \<and>
      (\<forall>i t' k'. t' \<noteq> t \<or> k' \<noteq> k \<longrightarrow> cube_at a' (i, t', k') = cube_at alpha (i, t', k'))"
proof -
  have S: "mat_rows transition = cube_rows emission" using ok by (simp add: forward_ok_def)
  show ?thesis unfolding forward_step_def S
proof (rule for_each_upt_inv[where I = "\<lambda>n a'. same_dims a' alpha0 \<and>
      (\<forall>i<n. forward_recursion transition emission obs alpha k t i = Inr (cube_at a' (i, t, k))) \<and>
      (\<forall>i t' k'. t' \<noteq> t \<or> k' \<noteq> k \<longrightarrow> cube_at a' (i, t', k') = cube_at alpha (i, t', k'))"], goal_cases)
  case 1
  show ?case by simp
next
  case 2
  show ?case using d by simp
next
  case (3 i a)
  let ?S = "cube_rows emission"
  let ?x = "map (\<lambda>j. cube_at alpha (j, t - 1, k) + mat_at transition (j, i)) [0..<?S]"
  from 3 have da: "same_dims a alpha0" and i: "i < ?S"
    and keep: "\<forall>i t' k'. t' \<noteq> t \<or> k' \<noteq> k \<longrightarrow> cube_at a (i, t', k') = cube_at alpha (i, t', k')"
    using ok by (simp_all add: forward_ok_def)
  have prev: "cube_slice_col a k (t - 1) = Inr (map (\<lambda>j. cube_at alpha (j, t - 1, k)) [0..<?S])"
    using ok da k t keep by (simp add: cube_slice_col_def forward_ok_def same_dims_def)
  have tr: "mat_col transition i = Inr (map (\<lambda>j. mat_at transition (j, i)) [0..<?S])"
    using ok i by (simp add: mat_col_def forward_ok_def)
  have "?x \<noteq> []" using i by simp
  then obtain l where l: "logSumExp ?x = Inr l" using logSumExp_ok by blast
  define a1 where "a1 = a\<lparr>cube_at := (cube_at a)((i, t, k) := l)\<rparr>"
  have a1: "cube_set a i t k l = Inr a1" "same_dims a1 alpha0"
    "cube_at a1 = (cube_at a)((i, t, k) := l)"
    using ok da i k t by (simp_all add: a1_def cube_set_def forward_ok_def same_dims_def)
  have "\<exists>a'. add_emissions emission obs i t k a1 = Inr a' \<and> same_dims a' a1 \<and>
      cube_at a' (i, t, k) = cube_at a1 (i, t, k) + emission_sum emission obs i t k \<and>
      (\<forall>p. p \<noteq> (i, t, k) \<longrightarrow> cube_at a' p = cube_at a1 p)"
    using ok a1(2) i k t by (intro add_emissions_post) (simp_all add: forward_ok_def same_dims_def)
  then obtain a2 where a2: "add_emissions emission obs i t k a1 = Inr a2" "same_dims a2 a1"
      "cube_at a2 (i, t, k) = cube_at a1 (i, t, k) + emission_sum emission obs i t k"
      "\<forall>p. p \<noteq> (i, t, k) \<longrightarrow> cube_at a2 p = cube_at a1 p"
    by blast
  have "same_dims a2 alpha0" using a2(2) a1(2) by (simp add: same_dims_def)
  moreover have "\<forall>j<Suc i. forward_recursion transition emission obs alpha k t j = Inr (cube_at a2 (j, t, k))"
    using a2(3,4) a1(3) 3(3) l by (auto simp: less_Suc_eq forward_recursion_def)
  moreover have "\<forall>j t' k'. t' \<noteq> t \<or> k' \<noteq> k \<longrightarrow> cube_at a2 (j, t', k') = cube_at alpha (j, t', k')"
    using a2(4) a1(3) keep by auto
  ultimately show ?case using prev tr l a1(1) a2(1) by (simp add: vec_add_upt)
qed
qed


lemma forward_recursion_cong:
  assumes "\<forall>j<cube_rows emission. cube_at a (j, t - 1, k) = cube_at b (j, t - 1, k)"
  shows "forward_recursion transition emission obs a k t i =
         forward_recursion transition emission obs b k t i"
proof -
  have "map (\<lambda>j. cube_at a (j, t - 1, k) + mat_at transition (j, i)) [0..<cube_rows emission] =
        map (\<lambda>j. cube_at b (j, t - 1, k) + mat_at transition (j, i)) [0..<cube_rows emission]"
    using assms by simp
  then show ?thesis unfolding forward_recursion_def by (rule arg_cong)
qed

lemma forward_filled_cong:
  assumes "\<forall>i t. cube_at a (i, t, k) = cube_at b (i, t, k)"
  shows "forward_filled transition emission init obs a k n =
         forward_filled transition emission init obs b k n"
proof -
  have "forward_recursion transition emission obs a k t i =
        forward_recursion transition emission obs b k t i" for t i
    using assms by (intro forward_recursion_cong) simp
  then show ?thesis using assms by (simp add: forward_filled_def)
qed

lemma forward_seq_post:
  assumes ok: "forward_ok transition emission init obs alpha0" and d: "same_dims alpha alpha0"
    and k: "k < cube_rows obs"
  shows "\<exists>a'. and_then (forward_init emission init obs k alpha)
            (for_each [1..<cube_cols obs] (forward_step transition emission obs k)) = Inr a' \<and>
      same_dims a' alpha0 \<and>
      forward_filled transition emission init obs a' k (cube_cols obs) \<and>
      (\<forall>i t k'. k' \<noteq> k \<longrightarrow> cube_at a' (i, t, k') = cube_at alpha (i, t, k'))"
proof -
  let ?F = "forward_filled transition emission init obs"
  from forward_init_post[OF ok d k] obtain a1 where
    a1: "forward_init emission init obs k alpha = Inr a1" "same_dims a1 alpha0"
      "\<forall>i<cube_rows emission. cube_at a1 (i, 0, k) = init ! i + emission_sum emission obs i 0 k"
      "\<forall>i t k'. t \<noteq> 0 \<or> k' \<noteq> k \<longrightarrow> cube_at a1 (i, t, k') = cube_at alpha (i, t, k')"
    by blast
  have T: "1 \<le> cube_cols obs" using ok by (simp add: forward_ok_def)
  have "\<exists>a'. for_each [1..<cube_cols obs] (forward_step transition emission obs k) a1 = Inr a' \<and>
      (same_dims a' alpha0 \<and> ?F a' k (cube_cols obs) \<and>
      (\<forall>i t k'. k' \<noteq> k \<longrightarrow> cube_at a' (i, t, k') = cube_at alpha (i, t, k')))"
  proof (rule for_each_upt_inv[where I = "\<lambda>n a'. same_dims a' alpha0 \<and> ?F a' k n \<and>
      (\<forall>i t k'. k' \<noteq> k \<longrightarrow> cube_at a' (i, t, k') = cube_at alpha (i, t, k'))"], goal_cases)
    case 1
    show ?case by (rule T)
  next
    case 2
    show ?case using a1 by (simp add: forward_filled_def)
  next
    case (3 t a)
    then have da: "same_dims a alpha0" and t: "0 < t" "t < cube_cols obs"
      and fa: "?F a k t"
      and keep: "\<forall>i t k'. k' \<noteq> k \<longrightarrow> cube_at a (i, t, k') = cube_at alpha (i, t, k')"
      by simp_all
    from forward_step_post[OF ok da k t] obtain a2 where
      a2: "forward_step transition emission obs k t a = Inr a2" "same_dims a2 alpha0"
        "\<forall>i<cube_rows emission.
           forward_recursion transition emission obs a k t i = Inr (cube_at a2 (i, t, k))"
        "\<forall>i t' k'. t' \<noteq> t \<or> k' \<noteq> k \<longrightarrow> cube_at a2 (i, t', k') = cube_at a (i, t', k')"
      by blast
    have rec: "forward_recursion transition emission obs a2 k t' i =
               forward_recursion transition emission obs a k t' i" if "0 < t'" "t' \<le> t" for t' i
      using a2(4) that by (intro forward_recursion_cong) simp
    have "?F a2 k (Suc t)"
      unfolding forward_filled_def
    proof (intro conjI allI impI)
      fix i assume "i < cube_rows emission"
      then show "cube_at a2 (i, 0, k) = init ! i + emission_sum emission obs i 0 k"
        using fa a2(4) t(1) by (simp add: forward_filled_def)
    next
      fix t' i assume t': "0 < t' \<and> t' < Suc t" and i: "i < cube_rows emission"
      show "forward_recursion transition emission obs a2 k t' i = Inr (cube_at a2 (i, t', k))"
      proof (cases "t' = t")
        case True
        then show ?thesis using rec[of t i] a2(3) i t(1) by simp
      next
        case False
        then have "t' < t" using t' by simp
        then show ?thesis using rec[of t' i] fa a2(4) i t' False by (simp add: forward_filled_def)
      qed
    qed
    moreover have "\<forall>i t k'. k' \<noteq> k \<longrightarrow> cube_at a2 (i, t, k') = cube_at alpha (i, t, k')"
      using a2(4) keep by simp
    ultimately show ?case using a2(1,2) by simp
  qed
  then show ?thesis using a1(1) by simp
qed

lemma internalForward_post:
  assumes ok: "forward_ok transition emission init obs alpha"
  shows "\<exists>a'. internalForward transition emission init obs alpha = Inr a' \<and> same_dims a' alpha \<and>
      (\<forall>k<cube_rows obs. forward_filled transition emission init obs a' k (cube_cols obs))"
  unfolding internalForward_def
proof (rule for_each_upt_inv[where I = "\<lambda>n a'. same_dims a' alpha \<and>
      (\<forall>k<n. forward_filled transition emission init obs a' k (cube_cols obs))"], goal_cases)
  case 1
  show ?case by simp
next
  case 2
  show ?case by (simp add: same_dims_def)
next
  case (3 k a)
  then have da: "same_dims a alpha" and k: "k < cube_rows obs"
    and fa: "\<forall>k'<k. forward_filled transition emission init obs a k' (cube_cols obs)"
    by simp_all
  from forward_seq_post[OF ok da k] obtain a2 where
    a2: "and_then (forward_init emission init obs k a)
            (for_each [1..<cube_cols obs] (forward_step transition emission obs k)) = Inr a2"
      "same_dims a2 alpha"
      "forward_filled transition emission init obs a2 k (cube_cols obs)"
      "\<forall>i t k'. k' \<noteq> k \<longrightarrow> cube_at a2 (i, t, k') = cube_at a (i, t, k')"
    by blast
  have "forward_filled transition emission init obs a2 k' (cube_cols obs)" if "k' < k" for k'
  proof -
    have "\<forall>i t. cube_at a2 (i, t, k') = cube_at a (i, t, k')" using a2(4) that by simp
    from forward_filled_cong[OF this] show ?thesis using fa that by simp
  qed
  then show ?case using a2(1,2,3) by (auto simp: less_Suc_eq)
qed


text \<open>
  C1.  On inputs whose dimensions fit, the forward routine returns a table in which, for
  every sequence \<open>k\<close> and state \<open>i\<close>, the entry at time \<open>0\<close> is \<open>init(i)\<close> plus the sum
  over the channels of the emission log-probabilities, and the entry at every later
  time \<open>t\<close> is \<open>logSumExp\<close> over the predecessor states \<open>j\<close> of
  \<open>alpha(j, t - 1, k) + transition(j, i)\<close> plus the sum over the channels of the emission
  log-probabilities.
\<close>

theorem internalForward_fills_alpha:
  assumes "forward_ok transition emission init obs alpha"
  shows "\<exists>alpha'. internalForward transition emission init obs alpha = Inr alpha' \<and>
     (\<forall>k<cube_rows obs. \<forall>i<cube_rows emission.
        cube_at alpha' (i, 0, k) =
          init ! i + (\<Sum>r<cube_slices obs. cube_at emission (i, nat (cube_at obs (k, 0, r)), r)) \<and>
        (\<forall>t. 1 \<le> t \<and> t < cube_cols obs \<longrightarrow>
           and_then (logSumExp (map (\<lambda>j. cube_at alpha' (j, t - 1, k) + mat_at transition (j, i))
                       [0..<cube_rows emission]))
             (\<lambda>l. Inr (l + (\<Sum>r<cube_slices obs.
                               cube_at emission (i, nat (cube_at obs (k, t, r)), r))))
           = Inr (cube_at alpha' (i, t, k))))"
proof -
  from internalForward_post[OF assms] obtain a' where
    a': "internalForward transition emission init obs alpha = Inr a'"
      "\<forall>k<cube_rows obs. forward_filled transition emission init obs a' k (cube_cols obs)"
    by blast
  from a'(2) show ?thesis
    unfolding a'(1) forward_filled_def forward_recursion_def emission_sum_def by auto
qed

theorem internalForward_fills_alpha_witness:
  "forward_ok ex_transition ex_emission ex_init ex_obs_forward ex_alpha \<and>
   (\<exists>alpha'. internalForward ex_transition ex_emission ex_init ex_obs_forward ex_alpha = Inr alpha' \<and>
      cube_at alpha' (0, 0, 0) = ln (6 / 10) + ln (7 / 10) \<and>
      cube_at alpha' (1, 0, 0) = ln (4 / 10) + ln (4 / 10))"
proof -
  have ok: "forward_ok ex_transition ex_emission ex_init ex_obs_forward ex_alpha"
    by (simp add: forward_ok_def ex_transition_def ex_emission_def ex_init_def
        ex_obs_forward_def ex_alpha_def)
  from internalForward_fills_alpha[OF ok] obtain a' where
    a': "internalForward ex_transition ex_emission ex_init ex_obs_forward ex_alpha = Inr a'"
      "\<forall>k<cube_rows ex_obs_forward. \<forall>i<cube_rows ex_emission.
        cube_at a' (i, 0, k) =
          ex_init ! i + (\<Sum>r<cube_slices ex_obs_forward.
             cube_at ex_emission (i, nat (cube_at ex_obs_forward (k, 0, r)), r))"
    by blast
  have "cube_at a' (0, 0, 0) = ln (6 / 10) + ln (7 / 10)"
    using a'(2)[rule_format, of 0 0]
    by (simp add: ex_emission_def ex_init_def ex_obs_forward_def)
  moreover have "cube_at a' (1, 0, 0) = ln (4 / 10) + ln (4 / 10)"
    using a'(2)[rule_format, of 0 1]
    by (simp add: ex_emission_def ex_init_def ex_obs_forward_def)
  ultimately show ?thesis using ok a'(1) by simp
qed

section \<open>The Viterbi tables are filled by the recursion\<close>


lemma for_each_rev_upt_inv:
  assumes "I n s"
    and "\<And>i s. i < n \<Longrightarrow> I (Suc i) s \<Longrightarrow> \<exists>s'. body i s = Inr s' \<and> I i s'"
  shows "\<exists>s'. for_each (rev [0..<n]) body s = Inr s' \<and> I 0 s'"
  using assms
proof (induction n arbitrary: s)
  case 0
  then show ?case by simp
next
  case (Suc n)
  from Suc.prems(2)[of n s] Suc.prems(1) obtain s1 where s1: "body n s = Inr s1" "I n s1"
    by auto
  have "\<exists>s'. for_each (rev [0..<n]) body s1 = Inr s' \<and> I 0 s'"
    using s1(2) Suc.prems(2) by (intro Suc.IH) auto
  then show ?case using s1(1) by simp
qed

lemma max_scan_first_max:
  assumes "ib < length pre" "best = pre ! ib" "i = length pre"
    and "\<forall>p<length pre. pre ! p \<le> best" "\<forall>p<ib. pre ! p < best"
    and "max_scan xs i best ib = (m, im)"
  shows "first_max (pre @ xs) im \<and> m = (pre @ xs) ! im"
  using assms
proof (induction xs arbitrary: pre i best ib)
  case Nil
  then show ?case by (auto simp: first_max_def)
next
  case (Cons x xs)
  show ?case
  proof (cases "x > best")
    case True
    have "first_max ((pre @ [x]) @ xs) im \<and> m = ((pre @ [x]) @ xs) ! im"
    proof (rule Cons.IH[where i = "Suc i" and best = x and ib = i])
      show "i < length (pre @ [x])" using Cons.prems by simp
      show "x = (pre @ [x]) ! i" using Cons.prems by simp
      show "Suc i = length (pre @ [x])" using Cons.prems by simp
      show "\<forall>p<length (pre @ [x]). (pre @ [x]) ! p \<le> x"
        using Cons.prems True by (auto simp: nth_append less_Suc_eq intro: less_imp_le order_trans)
      show "\<forall>p<i. (pre @ [x]) ! p < x"
        using Cons.prems True by (auto simp: nth_append intro: le_less_trans)
      show "max_scan xs (Suc i) x i = (m, im)" using Cons.prems True by simp
    qed
    then show ?thesis by simp
  next
    case False
    have "first_max ((pre @ [x]) @ xs) im \<and> m = ((pre @ [x]) @ xs) ! im"
    proof (rule Cons.IH[where i = "Suc i" and best = best and ib = ib])
      show "ib < length (pre @ [x])" using Cons.prems by simp
      show "best = (pre @ [x]) ! ib" using Cons.prems by (simp add: nth_append)
      show "Suc i = length (pre @ [x])" using Cons.prems by simp
      show "\<forall>p<length (pre @ [x]). (pre @ [x]) ! p \<le> best"
        using Cons.prems False by (auto simp: nth_append less_Suc_eq)
      show "\<forall>p<ib. (pre @ [x]) ! p < best"
        using Cons.prems by (auto simp: nth_append)
      show "max_scan xs (Suc i) best ib = (m, im)" using Cons.prems False by simp
    qed
    then show ?thesis by simp
  qed
qed

lemma arma_max_first_max:
  assumes "s \<noteq> []"
  shows "\<exists>im. arma_max s = Inr (s ! im, im) \<and> first_max s im"
proof -
  from assms obtain v vs where s: "s = v # vs" by (cases s) auto
  obtain m im where r: "max_scan vs 1 v 0 = (m, im)" by (cases "max_scan vs 1 v 0")
  have "first_max ([v] @ vs) im \<and> m = ([v] @ vs) ! im"
    by (rule max_scan_first_max[OF _ _ _ _ _ r]) simp_all
  then show ?thesis using r by (auto simp: arma_max_def s)
qed

lemma first_max_unique: "first_max s a \<Longrightarrow> first_max s b \<Longrightarrow> a = b"
  unfolding first_max_def by (metis linorder_neqE_nat not_less)

lemma expand_nth:
  assumes "length ns \<le> length w" "j < sum_list ns"
  shows "concat (map (\<lambda>(w, n). replicate n w) (zip w ns)) ! j = w ! cluster_of ns j"
  using assms
proof (induction ns arbitrary: w j)
  case Nil
  then show ?case by simp
next
  case (Cons n ns)
  then obtain x xs where w: "w = x # xs" by (cases w) auto
  show ?case
  proof (cases "j < n")
    case True
    then show ?thesis by (simp add: w nth_append)
  next
    case False
    then have "concat (map (\<lambda>(w, n). replicate n w) (zip xs ns)) ! (j - n) = xs ! cluster_of ns (j - n)"
      using Cons.prems by (intro Cons.IH) (auto simp: w)
    then show ?thesis using False by (simp add: w nth_append)
  qed
qed

lemma expand_length:
  "length ns \<le> length w \<Longrightarrow> length (concat (map (\<lambda>(w, n). replicate n w) (zip w ns))) = sum_list ns"
proof (induction ns arbitrary: w)
  case Nil
  then show ?case by simp
next
  case (Cons n ns)
  then obtain x xs where w: "w = x # xs" by (cases w) auto
  then show ?case using Cons by simp
qed

lemma reparma_ok:
  assumes "length ns \<le> length w"
  shows "\<exists>rw. reparma w ns = Inr rw \<and> length rw = sum_list ns \<and>
           (\<forall>j<sum_list ns. rw ! j = w ! cluster_of ns j)"
  using assms by (simp add: reparma_def expand_nth expand_length)

lemma cluster_of_less: "j < sum_list ns \<Longrightarrow> cluster_of ns j < length ns"
  by (induction ns arbitrary: j) auto


lemma mixture_weights_ok:
  assumes "mat_cols X = mat_rows coef"
  shows "\<exists>w. mixture_weights coef X = Inr w \<and> mat_rows w = mat_cols coef \<and>
           mat_cols w = mat_rows X \<and>
           (\<forall>c k. k < mat_rows X \<longrightarrow>
              mat_at w (c, k) = exp (linear_predictor coef X k c) /
                                (\<Sum>c'<mat_cols coef. exp (linear_predictor coef X k c')))"
  using assms
  by (simp add: mixture_weights_def mat_mult_def mat_t_def mat_exp_def each_row_div_def
      col_sums_def linear_predictor_def Let_def)

lemma softmax_sum_one:
  fixes z :: "nat \<Rightarrow> real"
  assumes "0 < M"
  shows "(\<Sum>c<M. exp (z c) / (\<Sum>c'<M. exp (z c'))) = 1"
proof -
  have "0 < (\<Sum>c'<M. exp (z c'))" using assms by (intro sum_pos) auto
  then show ?thesis by (simp add: sum_divide_distrib[symmetric])
qed

lemma softmax_pos:
  fixes z :: "nat \<Rightarrow> real"
  assumes "0 < M"
  shows "0 < exp (z c) / (\<Sum>c'<M. exp (z c'))"
proof -
  have "0 < (\<Sum>c'<M. exp (z c'))" using assms by (intro sum_pos) auto
  then show ?thesis by simp
qed

lemma mixture_lweights_ok:
  assumes "mat_cols X = mat_rows coef"
  shows "\<exists>lw. mixture_lweights coef X = Inr lw \<and> mat_rows lw = mat_cols coef \<and>
           mat_cols lw = mat_rows X \<and>
           (\<forall>c k. k < mat_rows X \<longrightarrow>
              mat_at lw (c, k) = ln (exp (linear_predictor coef X k c) /
                                (\<Sum>c'<mat_cols coef. exp (linear_predictor coef X k c'))))"
proof -
  from mixture_weights_ok[OF assms] obtain w where w: "mixture_weights coef X = Inr w"
    "mat_rows w = mat_cols coef" "mat_cols w = mat_rows X"
    "\<forall>c k. k < mat_rows X \<longrightarrow>
              mat_at w (c, k) = exp (linear_predictor coef X k c) /
                                (\<Sum>c'<mat_cols coef. exp (linear_predictor coef X k c'))"
    by blast
  then show ?thesis by (simp add: mixture_lweights_def mat_log_def)
qed

lemma viterbi_init_post:
  assumes dims: "mat_rows delta = cube_rows emission" "mat_cols delta = cube_cols obs"
    and T: "0 < cube_cols obs" and k: "k < cube_slices obs"
    and lw: "k < mat_cols lweights" "length numberOfStates \<le> mat_rows lweights"
    and init: "length init = cube_rows emission" "sum_list numberOfStates = cube_rows emission"
    and obs: "cube_rows obs = cube_slices emission"
      "\<forall>r<cube_rows obs. cube_at obs (r, 0, k) < cube_cols emission"
  shows "\<exists>d'. viterbi_init emission init obs lweights numberOfStates k delta = Inr d' \<and>
      mat_rows d' = cube_rows emission \<and> mat_cols d' = cube_cols obs \<and>
      (\<forall>j<cube_rows emission. mat_at d' (j, 0) =
          init ! j + mat_at lweights (cluster_of numberOfStates j, k) +
          viterbi_emission_sum emission obs j 0 k)"
proof -
  let ?S = "cube_rows emission"
  let ?base = "\<lambda>j. init ! j + mat_at lweights (cluster_of numberOfStates j, k)"
  let ?w = "map (\<lambda>c. mat_at lweights (c, k)) [0..<mat_rows lweights]"
  have w: "mat_col lweights k = Inr ?w" using lw by (simp add: mat_col_def)
  from reparma_ok[of numberOfStates ?w] lw obtain rw where
    rw: "reparma ?w numberOfStates = Inr rw" "length rw = ?S"
      "\<forall>j<?S. rw ! j = ?w ! cluster_of numberOfStates j"
    using init by auto
  have rwj: "rw ! j = mat_at lweights (cluster_of numberOfStates j, k)" if "j < ?S" for j
  proof -
    have "cluster_of numberOfStates j < mat_rows lweights"
      using cluster_of_less[of j numberOfStates] that init lw by simp
    then show ?thesis using rw(3) that by simp
  qed
  let ?d0 = "map (\<lambda>i. init ! i + rw ! i) [0..<?S]"
  have d0: "vec_add init rw = Inr ?d0" using init rw(2) by (simp add: vec_add_def)
  define d1 where "d1 = delta\<lparr>mat_at := (\<lambda>(i, j'). if j' = 0 \<and> i < mat_rows delta then ?d0 ! i
                                        else mat_at delta (i, j'))\<rparr>"
  have d1: "mat_set_col delta 0 ?d0 = Inr d1" using dims T by (simp add: mat_set_col_def d1_def)
  have d1_dims: "mat_rows d1 = ?S" "mat_cols d1 = cube_cols obs" using dims by (simp_all add: d1_def)
  have d1_at: "\<forall>j<?S. mat_at d1 (j, 0) = ?base j" using dims rwj by (simp add: d1_def)
  have loop: "\<exists>d'. for_each [0..<cube_slices emission] (\<lambda>r delta.
          and_then (cube_get obs r 0 k) (\<lambda>sym.
          and_then (cube_slice_col emission r sym) (\<lambda>e.
          and_then (mat_col delta 0) (\<lambda>d.
          and_then (vec_add d e) (\<lambda>d'.
          mat_set_col delta 0 d'))))) d1 = Inr d' \<and>
       (mat_rows d' = ?S \<and> mat_cols d' = cube_cols obs \<and>
        (\<forall>j<?S. mat_at d' (j, 0) = ?base j +
           (\<Sum>r<cube_slices emission. cube_at emission (j, cube_at obs (r, 0, k), r))))"
  proof (rule for_each_upt_inv[where I = "\<lambda>n d'. mat_rows d' = ?S \<and> mat_cols d' = cube_cols obs \<and>
        (\<forall>j<?S. mat_at d' (j, 0) = ?base j +
           (\<Sum>r<n. cube_at emission (j, cube_at obs (r, 0, k), r)))"], goal_cases)
    case 1
    show ?case by simp
  next
    case 2
    show ?case using d1_dims d1_at by simp
  next
    case (3 r d)
    let ?sym = "cube_at obs (r, 0, k)"
    have sym: "cube_get obs r 0 k = Inr ?sym" using 3(2) obs T k by (simp add: cube_get_def)
    have e: "cube_slice_col emission r ?sym = Inr (map (\<lambda>i. cube_at emission (i, ?sym, r)) [0..<?S])"
      using 3(2) obs by (simp add: cube_slice_col_def)
    have c: "mat_col d 0 = Inr (map (\<lambda>i. mat_at d (i, 0)) [0..<?S])"
      using 3(3) T by (simp add: mat_col_def)
    let ?d' = "map (\<lambda>i. mat_at d (i, 0) + cube_at emission (i, ?sym, r)) [0..<?S]"
    define d2 where "d2 = d\<lparr>mat_at := (\<lambda>(i, j'). if j' = 0 \<and> i < mat_rows d then ?d' ! i
                                        else mat_at d (i, j'))\<rparr>"
    have d2: "mat_set_col d 0 ?d' = Inr d2" using 3(3) T by (simp add: mat_set_col_def d2_def)
    have "mat_rows d2 = ?S \<and> mat_cols d2 = cube_cols obs \<and>
        (\<forall>j<?S. mat_at d2 (j, 0) = ?base j +
           (\<Sum>r<Suc r. cube_at emission (j, cube_at obs (r, 0, k), r)))"
      using 3(3) by (simp add: d2_def add.assoc)
    then show ?case using sym e c d2 by (simp add: vec_add_upt)
  qed
  show ?thesis
    unfolding viterbi_init_def viterbi_emission_sum_def
    using w rw(1) d0 d1 loop by simp
qed


lemma viterbi_add_emissions_post:
  assumes "j < mat_rows delta" "t < mat_cols delta"
    and "t < cube_cols obs" "k < cube_slices obs" "cube_rows obs = cube_slices emission"
    and "j < cube_rows emission"
    and sym: "\<forall>r<cube_rows obs. cube_at obs (r, t, k) < cube_cols emission"
  shows "\<exists>d'. for_each [0..<cube_slices emission] (\<lambda>r delta.
                 and_then (cube_get obs r t k) (\<lambda>sym.
                 and_then (cube_get emission j sym r) (\<lambda>e.
                 and_then (mat_get delta j t) (\<lambda>a.
                 mat_set delta j t (a + e))))) delta = Inr d' \<and>
      (mat_rows d' = mat_rows delta \<and> mat_cols d' = mat_cols delta \<and>
       mat_at d' (j, t) = mat_at delta (j, t) + viterbi_emission_sum emission obs j t k \<and>
       (\<forall>p. p \<noteq> (j, t) \<longrightarrow> mat_at d' p = mat_at delta p))"
  unfolding viterbi_emission_sum_def
proof (rule for_each_upt_inv[where I = "\<lambda>n d'.
       mat_rows d' = mat_rows delta \<and> mat_cols d' = mat_cols delta \<and>
       mat_at d' (j, t) = mat_at delta (j, t) +
          (\<Sum>r<n. cube_at emission (j, cube_at obs (r, t, k), r)) \<and>
       (\<forall>p. p \<noteq> (j, t) \<longrightarrow> mat_at d' p = mat_at delta p)"], goal_cases)
  case 1
  show ?case by simp
next
  case 2
  show ?case by simp
next
  case (3 r d)
  then have "cube_at obs (r, t, k) < cube_cols emission" using sym assms(5) by simp
  with 3 assms(1-6) show ?case
    by (simp add: cube_get_def mat_get_def mat_set_def add.assoc)
qed

lemma viterbi_entry_post:
  assumes dims: "mat_rows delta = cube_rows emission" "mat_cols delta = cube_cols obs"
      "mat_rows phi = cube_rows emission" "mat_cols phi = cube_cols obs"
    and tr: "mat_rows transition = cube_rows emission" "mat_cols transition = cube_rows emission"
    and t: "0 < t" "t < cube_cols obs" and k: "k < cube_slices obs" and j: "j < cube_rows emission"
    and obs: "cube_rows obs = cube_slices emission"
      "\<forall>r<cube_rows obs. cube_at obs (r, t, k) < cube_cols emission"
  shows "\<exists>d' p'. viterbi_entry transition emission obs k t j (delta, phi) = Inr (d', p') \<and>
      mat_rows d' = cube_rows emission \<and> mat_cols d' = cube_cols obs \<and>
      mat_rows p' = cube_rows emission \<and> mat_cols p' = cube_cols obs \<and>
      first_max (map (\<lambda>i. mat_at delta (i, t - 1) + mat_at transition (i, j))
                   [0..<cube_rows emission]) (mat_at p' (j, t)) \<and>
      mat_at d' (j, t) = mat_at delta (mat_at p' (j, t), t - 1) +
          mat_at transition (mat_at p' (j, t), j) + viterbi_emission_sum emission obs j t k \<and>
      (\<forall>p. p \<noteq> (j, t) \<longrightarrow> mat_at d' p = mat_at delta p \<and> mat_at p' p = mat_at phi p)"
proof -
  let ?S = "cube_rows emission"
  let ?s = "map (\<lambda>i. mat_at delta (i, t - 1) + mat_at transition (i, j)) [0..<?S]"
  have c1: "mat_col delta (t - 1) = Inr (map (\<lambda>i. mat_at delta (i, t - 1)) [0..<?S])"
    using dims t by (simp add: mat_col_def)
  have c2: "mat_col transition j = Inr (map (\<lambda>i. mat_at transition (i, j)) [0..<?S])"
    using tr j by (simp add: mat_col_def)
  have "?s \<noteq> []" using j by simp
  from arma_max_first_max[OF this] obtain im where
    im: "arma_max ?s = Inr (?s ! im, im)" "first_max ?s im" by blast
  then have imS: "im < ?S" by (simp add: first_max_def)
  define p1 where "p1 = phi\<lparr>mat_at := (mat_at phi)((j, t) := im)\<rparr>"
  have p1: "mat_set phi j t im = Inr p1" "mat_get p1 j t = Inr im"
    using dims j t by (simp_all add: mat_set_def mat_get_def p1_def)
  have g1: "mat_get delta im (t - 1) = Inr (mat_at delta (im, t - 1))"
    using dims imS t by (simp add: mat_get_def)
  have g2: "mat_get transition im j = Inr (mat_at transition (im, j))"
    using tr imS j by (simp add: mat_get_def)
  define d1 where "d1 = delta\<lparr>mat_at := (mat_at delta)((j, t) :=
      mat_at delta (im, t - 1) + mat_at transition (im, j))\<rparr>"
  have d1: "mat_set delta j t (mat_at delta (im, t - 1) + mat_at transition (im, j)) = Inr d1"
    using dims j t by (simp add: mat_set_def d1_def)
  have d1_dims: "mat_rows d1 = ?S" "mat_cols d1 = cube_cols obs" using dims by (simp_all add: d1_def)
  have "\<exists>d'. for_each [0..<cube_slices emission] (\<lambda>r delta.
                 and_then (cube_get obs r t k) (\<lambda>sym.
                 and_then (cube_get emission j sym r) (\<lambda>e.
                 and_then (mat_get delta j t) (\<lambda>a.
                 mat_set delta j t (a + e))))) d1 = Inr d' \<and>
      (mat_rows d' = mat_rows d1 \<and> mat_cols d' = mat_cols d1 \<and>
       mat_at d' (j, t) = mat_at d1 (j, t) + viterbi_emission_sum emission obs j t k \<and>
       (\<forall>p. p \<noteq> (j, t) \<longrightarrow> mat_at d' p = mat_at d1 p))"
    using d1_dims j t k obs by (intro viterbi_add_emissions_post) simp_all
  then obtain d2 where d2: "for_each [0..<cube_slices emission] (\<lambda>r delta.
                 and_then (cube_get obs r t k) (\<lambda>sym.
                 and_then (cube_get emission j sym r) (\<lambda>e.
                 and_then (mat_get delta j t) (\<lambda>a.
                 mat_set delta j t (a + e))))) d1 = Inr d2"
      "mat_rows d2 = mat_rows d1" "mat_cols d2 = mat_cols d1"
      "mat_at d2 (j, t) = mat_at d1 (j, t) + viterbi_emission_sum emission obs j t k"
      "\<forall>p. p \<noteq> (j, t) \<longrightarrow> mat_at d2 p = mat_at d1 p"
    by blast
  have run: "viterbi_entry transition emission obs k t j (delta, phi) = Inr (d2, p1)"
    unfolding viterbi_entry_def using c1 c2 im(1) p1 g1 g2 d1 d2(1) by (simp add: vec_add_upt)
  have "mat_at p1 (j, t) = im" by (simp add: p1_def)
  moreover have "mat_at d2 (j, t) = mat_at delta (im, t - 1) + mat_at transition (im, j) +
      viterbi_emission_sum emission obs j t k"
    using d2(4) by (simp add: d1_def)
  moreover have "\<forall>p. p \<noteq> (j, t) \<longrightarrow> mat_at d2 p = mat_at delta p \<and> mat_at p1 p = mat_at phi p"
    using d2(5) by (simp add: d1_def p1_def)
  moreover have "mat_rows p1 = ?S" "mat_cols p1 = cube_cols obs" using dims by (simp_all add: p1_def)
  ultimately show ?thesis using run im(2) d2(2,3) d1_dims by simp
qed


lemma viterbi_column_post:
  assumes dims: "mat_rows delta = cube_rows emission" "mat_cols delta = cube_cols obs"
      "mat_rows phi = cube_rows emission" "mat_cols phi = cube_cols obs"
    and tr: "mat_rows transition = cube_rows emission" "mat_cols transition = cube_rows emission"
    and t: "0 < t" "t < cube_cols obs" and k: "k < cube_slices obs"
    and obs: "cube_rows obs = cube_slices emission"
      "\<forall>r<cube_rows obs. cube_at obs (r, t, k) < cube_cols emission"
  shows "\<exists>s'. for_each [0..<cube_rows emission] (viterbi_entry transition emission obs k t)
            (delta, phi) = Inr s' \<and>
      (case s' of (d', p') \<Rightarrow>
        mat_rows d' = cube_rows emission \<and> mat_cols d' = cube_cols obs \<and>
        mat_rows p' = cube_rows emission \<and> mat_cols p' = cube_cols obs \<and>
        (\<forall>j<cube_rows emission.
           first_max (map (\<lambda>i. mat_at delta (i, t - 1) + mat_at transition (i, j))
                   [0..<cube_rows emission]) (mat_at p' (j, t)) \<and>
           mat_at d' (j, t) = mat_at delta (mat_at p' (j, t), t - 1) +
             mat_at transition (mat_at p' (j, t), j) + viterbi_emission_sum emission obs j t k) \<and>
        (\<forall>i t'. t' \<noteq> t \<longrightarrow> mat_at d' (i, t') = mat_at delta (i, t') \<and>
                             mat_at p' (i, t') = mat_at phi (i, t')))"
proof (rule for_each_upt_inv[where I = "\<lambda>n s'. case s' of (d', p') \<Rightarrow>
        mat_rows d' = cube_rows emission \<and> mat_cols d' = cube_cols obs \<and>
        mat_rows p' = cube_rows emission \<and> mat_cols p' = cube_cols obs \<and>
        (\<forall>j<n.
           first_max (map (\<lambda>i. mat_at delta (i, t - 1) + mat_at transition (i, j))
                   [0..<cube_rows emission]) (mat_at p' (j, t)) \<and>
           mat_at d' (j, t) = mat_at delta (mat_at p' (j, t), t - 1) +
             mat_at transition (mat_at p' (j, t), j) + viterbi_emission_sum emission obs j t k) \<and>
        (\<forall>i t'. t' \<noteq> t \<longrightarrow> mat_at d' (i, t') = mat_at delta (i, t') \<and>
                             mat_at p' (i, t') = mat_at phi (i, t'))"], goal_cases)
  case 1
  show ?case by simp
next
  case 2
  show ?case using dims by simp
next
  case (3 j s)
  obtain d p where s: "s = (d, p)" by (cases s)
  let ?S = "cube_rows emission"
  from 3(3) have sd: "mat_rows d = ?S" "mat_cols d = cube_cols obs"
      "mat_rows p = ?S" "mat_cols p = cube_cols obs"
    and earlier: "\<forall>j'<j.
           first_max (map (\<lambda>i. mat_at delta (i, t - 1) + mat_at transition (i, j'))
                   [0..<?S]) (mat_at p (j', t)) \<and>
           mat_at d (j', t) = mat_at delta (mat_at p (j', t), t - 1) +
             mat_at transition (mat_at p (j', t), j') + viterbi_emission_sum emission obs j' t k"
    and keep: "\<forall>i t'. t' \<noteq> t \<longrightarrow> mat_at d (i, t') = mat_at delta (i, t') \<and>
                             mat_at p (i, t') = mat_at phi (i, t')"
    by (simp_all add: s)
  from viterbi_entry_post[OF sd tr t k 3(2) obs] obtain d' p' where
    e: "viterbi_entry transition emission obs k t j (d, p) = Inr (d', p')"
      "mat_rows d' = ?S" "mat_cols d' = cube_cols obs"
      "mat_rows p' = ?S" "mat_cols p' = cube_cols obs"
      "first_max (map (\<lambda>i. mat_at d (i, t - 1) + mat_at transition (i, j)) [0..<?S])
         (mat_at p' (j, t))"
      "mat_at d' (j, t) = mat_at d (mat_at p' (j, t), t - 1) +
          mat_at transition (mat_at p' (j, t), j) + viterbi_emission_sum emission obs j t k"
      "\<forall>q. q \<noteq> (j, t) \<longrightarrow> mat_at d' q = mat_at d q \<and> mat_at p' q = mat_at p q"
    by blast
  have prev: "mat_at d (i, t - 1) = mat_at delta (i, t - 1)" for i
    using keep t by simp
  have new: "first_max (map (\<lambda>i. mat_at delta (i, t - 1) + mat_at transition (i, j)) [0..<?S])
         (mat_at p' (j, t))"
      "mat_at d' (j, t) = mat_at delta (mat_at p' (j, t), t - 1) +
          mat_at transition (mat_at p' (j, t), j) + viterbi_emission_sum emission obs j t k"
    using e(6,7) by (simp_all only: prev)
  have old: "first_max (map (\<lambda>i. mat_at delta (i, t - 1) + mat_at transition (i, j'))
                   [0..<?S]) (mat_at p' (j', t)) \<and>
           mat_at d' (j', t) = mat_at delta (mat_at p' (j', t), t - 1) +
             mat_at transition (mat_at p' (j', t), j') + viterbi_emission_sum emission obs j' t k"
    if "j' < j" for j'
    using earlier e(8) that by simp
  have keep': "\<forall>i t'. t' \<noteq> t \<longrightarrow> mat_at d' (i, t') = mat_at delta (i, t') \<and>
                             mat_at p' (i, t') = mat_at phi (i, t')"
    using keep e(8) by simp
  show ?case
    unfolding s e(1) using e(2-5) new old keep' by (auto simp: less_Suc_eq)
qed

lemma viterbi_tables_post:
  assumes tr: "mat_rows transition = cube_rows emission" "mat_cols transition = cube_rows emission"
    and T: "0 < cube_cols obs" and k: "k < cube_slices obs"
    and lw: "k < mat_cols lweights" "length numberOfStates \<le> mat_rows lweights"
    and init: "length init = cube_rows emission" "sum_list numberOfStates = cube_rows emission"
    and obs: "cube_rows obs = cube_slices emission"
      "\<forall>r<cube_rows obs. \<forall>t<cube_cols obs. cube_at obs (r, t, k) < cube_cols emission"
  shows "\<exists>delta phi.
      viterbi_tables transition emission init obs lweights numberOfStates k = Inr (delta, phi) \<and>
      viterbi_filled transition emission init obs lweights numberOfStates k delta phi"
proof -
  let ?S = "cube_rows emission" and ?T = "cube_cols obs"
  let ?d0 = "new_mat ?S ?T (0::real)" and ?p0 = "new_mat ?S ?T (0::nat)"
  have "\<exists>d'. viterbi_init emission init obs lweights numberOfStates k ?d0 = Inr d' \<and>
      mat_rows d' = ?S \<and> mat_cols d' = ?T \<and>
      (\<forall>j<?S. mat_at d' (j, 0) =
          init ! j + mat_at lweights (cluster_of numberOfStates j, k) +
          viterbi_emission_sum emission obs j 0 k)"
    using T k lw init obs by (intro viterbi_init_post) (simp_all add: new_mat_def)
  then obtain d1 where d1: "viterbi_init emission init obs lweights numberOfStates k ?d0 = Inr d1"
      "mat_rows d1 = ?S" "mat_cols d1 = ?T"
      "\<forall>j<?S. mat_at d1 (j, 0) =
          init ! j + mat_at lweights (cluster_of numberOfStates j, k) +
          viterbi_emission_sum emission obs j 0 k"
    by blast
  obtain p1 where p1: "mat_set_col ?p0 0 (replicate (mat_rows ?p0) 0) = Inr p1"
      "mat_rows p1 = ?S" "mat_cols p1 = ?T"
    using T by (simp add: mat_set_col_def new_mat_def)
  let ?I = "\<lambda>n s'. case s' of (d', p') \<Rightarrow>
      mat_rows d' = ?S \<and> mat_cols d' = ?T \<and> mat_rows p' = ?S \<and> mat_cols p' = ?T \<and>
      (\<forall>j<?S. mat_at d' (j, 0) =
          init ! j + mat_at lweights (cluster_of numberOfStates j, k) +
          viterbi_emission_sum emission obs j 0 k) \<and>
      (\<forall>t. 1 \<le> t \<and> t < n \<longrightarrow> (\<forall>j<?S.
        first_max (map (\<lambda>i. mat_at d' (i, t - 1) + mat_at transition (i, j)) [0..<?S])
          (mat_at p' (j, t)) \<and>
        mat_at d' (j, t) =
          mat_at d' (mat_at p' (j, t), t - 1) + mat_at transition (mat_at p' (j, t), j) +
          viterbi_emission_sum emission obs j t k))"
  have "\<exists>s'. for_each [1..<?T] (\<lambda>t.
           for_each [0..<?S] (viterbi_entry transition emission obs k t)) (d1, p1) = Inr s' \<and>
         ?I ?T s'"
  proof (rule for_each_upt_inv[where I = ?I], goal_cases)
    case 1
    show ?case using T by simp
  next
    case 2
    show ?case using d1 p1 by simp
  next
    case (3 t s)
    obtain d p where s: "s = (d, p)" by (cases s)
    from 3(3) have sd: "mat_rows d = ?S" "mat_cols d = ?T" "mat_rows p = ?S" "mat_cols p = ?T"
      and c0: "\<forall>j<?S. mat_at d (j, 0) =
          init ! j + mat_at lweights (cluster_of numberOfStates j, k) +
          viterbi_emission_sum emission obs j 0 k"
      and earlier: "\<forall>t'. 1 \<le> t' \<and> t' < t \<longrightarrow> (\<forall>j<?S.
        first_max (map (\<lambda>i. mat_at d (i, t' - 1) + mat_at transition (i, j)) [0..<?S])
          (mat_at p (j, t')) \<and>
        mat_at d (j, t') =
          mat_at d (mat_at p (j, t'), t' - 1) + mat_at transition (mat_at p (j, t'), j) +
          viterbi_emission_sum emission obs j t' k)"
      by (simp_all add: s)
    have t: "0 < t" "t < ?T" using 3(1,2) by simp_all
    have sym: "\<forall>r<cube_rows obs. cube_at obs (r, t, k) < cube_cols emission"
      using obs(2) t by simp
    from viterbi_column_post[OF sd tr t k obs(1) sym] obtain d' p' where
      c: "for_each [0..<?S] (viterbi_entry transition emission obs k t) (d, p) = Inr (d', p')"
        "mat_rows d' = ?S" "mat_cols d' = ?T" "mat_rows p' = ?S" "mat_cols p' = ?T"
        "\<forall>j<?S.
           first_max (map (\<lambda>i. mat_at d (i, t - 1) + mat_at transition (i, j)) [0..<?S])
             (mat_at p' (j, t)) \<and>
           mat_at d' (j, t) = mat_at d (mat_at p' (j, t), t - 1) +
             mat_at transition (mat_at p' (j, t), j) + viterbi_emission_sum emission obs j t k"
        "\<forall>i t'. t' \<noteq> t \<longrightarrow> mat_at d' (i, t') = mat_at d (i, t') \<and>
                             mat_at p' (i, t') = mat_at p (i, t')"
      by auto
    have same: "mat_at d' (i, t') = mat_at d (i, t')" "mat_at p' (i, t') = mat_at p (i, t')"
      if "t' < t" for i t'
      using c(7) that by simp_all
    have "?I (Suc t) (d', p')"
      unfolding prod.case
    proof (intro conjI allI impI)
      fix j assume "j < ?S"
      then show "mat_at d' (j, 0) =
          init ! j + mat_at lweights (cluster_of numberOfStates j, k) +
          viterbi_emission_sum emission obs j 0 k"
        using c0 same(1)[OF t(1)] by simp
    next
      fix t' j assume t': "1 \<le> t' \<and> t' < Suc t" and j: "j < ?S"
      have *: "first_max (map (\<lambda>i. mat_at d' (i, t' - 1) + mat_at transition (i, j)) [0..<?S])
          (mat_at p' (j, t')) \<and> mat_at d' (j, t') =
          mat_at d' (mat_at p' (j, t'), t' - 1) + mat_at transition (mat_at p' (j, t'), j) +
          viterbi_emission_sum emission obs j t' k"
      proof (cases "t' = t")
        case True
        have "t - 1 < t" using t(1) by simp
        then show ?thesis using c(6) j True by (simp add: same)
      next
        case False
        then have lt: "t' < t" "t' - 1 < t" using t' by linarith+
        then show ?thesis using earlier t' j by (simp add: same)
      qed
      from * show "first_max (map (\<lambda>i. mat_at d' (i, t' - 1) + mat_at transition (i, j)) [0..<?S])
          (mat_at p' (j, t'))" by simp
      from * show "mat_at d' (j, t') =
          mat_at d' (mat_at p' (j, t'), t' - 1) + mat_at transition (mat_at p' (j, t'), j) +
          viterbi_emission_sum emission obs j t' k" by simp
    qed (use c in simp_all)
    then show ?case unfolding s c(1) by simp
  qed
  then obtain d p where
    r: "for_each [1..<?T] (\<lambda>t.
           for_each [0..<?S] (viterbi_entry transition emission obs k t)) (d1, p1) = Inr (d, p)"
      "?I ?T (d, p)"
    by auto
  have "viterbi_tables transition emission init obs lweights numberOfStates k = Inr (d, p)"
    unfolding viterbi_tables_def Let_def using d1(1) p1(1) r(1) by simp
  moreover have "viterbi_filled transition emission init obs lweights numberOfStates k d p"
    using r(2) by (simp add: viterbi_filled_def)
  ultimately show ?thesis by blast
qed


lemma viterbi_filled_phi_less:
  assumes "viterbi_filled transition emission init obs lweights numberOfStates k delta phi"
    and "1 \<le> t" "t < cube_cols obs" "j < cube_rows emission"
  shows "mat_at phi (j, t) < cube_rows emission"
  using assms by (auto simp: viterbi_filled_def first_max_def)

lemma viterbi_path_post:
  assumes dims: "mat_rows delta = S" "mat_cols delta = cube_cols obs"
      "mat_rows phi = S" "mat_cols phi = cube_cols obs"
    and phi: "\<forall>t. 1 \<le> t \<and> t < cube_cols obs \<longrightarrow> (\<forall>j<S. mat_at phi (j, t) < S)"
    and S: "0 < S" and T: "0 < cube_cols obs"
    and q: "mat_rows q = cube_slices obs" "mat_cols q = cube_cols obs"
      "length logp = cube_slices obs"
    and k: "k < cube_slices obs"
  shows "\<exists>q' logp'. viterbi_path obs k delta phi (q, logp) = Inr (q', logp') \<and>
      mat_rows q' = cube_slices obs \<and> mat_cols q' = cube_cols obs \<and>
      length logp' = cube_slices obs \<and>
      viterbi_traced obs k delta phi q' logp' \<and>
      (\<forall>t<cube_cols obs. mat_at q' (k, t) < S) \<and>
      (\<forall>k' t. k' \<noteq> k \<longrightarrow> mat_at q' (k', t) = mat_at q (k', t) \<and> logp' ! k' = logp ! k')"
proof -
  let ?T = "cube_cols obs"
  let ?d = "map (\<lambda>j. mat_at delta (j, ?T - 1)) [0..<S]"
  have c: "mat_col delta (?T - 1) = Inr ?d" using dims T by (simp add: mat_col_def)
  have "?d \<noteq> []" using S by simp
  from arma_max_first_max[OF this] obtain im where
    im: "arma_max ?d = Inr (?d ! im, im)" "first_max ?d im" by blast
  then have imS: "im < S" by (simp add: first_max_def)
  then have dim: "?d ! im = mat_at delta (im, ?T - 1)" by simp
  define q1 where "q1 = q\<lparr>mat_at := (mat_at q)((k, ?T - 1) := im)\<rparr>"
  have q1: "mat_set q k (?T - 1) im = Inr q1" using q k T by (simp add: mat_set_def q1_def)
  let ?I = "\<lambda>n q'. mat_rows q' = cube_slices obs \<and> mat_cols q' = ?T \<and>
      mat_at q' (k, ?T - 1) = im \<and>
      (\<forall>t. n \<le> t \<and> t < ?T \<longrightarrow> mat_at q' (k, t) < S) \<and>
      (\<forall>t. n \<le> t \<and> t + 1 < ?T \<longrightarrow> mat_at q' (k, t) = mat_at phi (mat_at q' (k, t + 1), t + 1)) \<and>
      (\<forall>k' t. k' \<noteq> k \<longrightarrow> mat_at q' (k', t) = mat_at q (k', t))"
  have "\<exists>q'. for_each (rev [0..<?T - 1]) (\<lambda>t q.
                   and_then (mat_get q k (t + 1)) (\<lambda>s.
                   and_then (mat_get phi s (t + 1)) (\<lambda>p.
                   mat_set q k t p))) q1 = Inr q' \<and> ?I 0 q'"
  proof (rule for_each_rev_upt_inv[where I = ?I], goal_cases)
    case 1
    have "mat_at q1 (k, t) < S" if "?T - 1 \<le> t \<and> t < ?T" for t
    proof -
      from that have "t = ?T - 1" by linarith
      then show ?thesis using imS by (simp add: q1_def)
    qed
    moreover have "\<not> (?T - 1 \<le> t \<and> t + 1 < ?T)" for t by linarith
    moreover have "mat_at q1 (k', t) = mat_at q (k', t)" if "k' \<noteq> k" for k' t
      using that by (simp add: q1_def)
    moreover have "mat_at q1 (k, ?T - 1) = im" "mat_rows q1 = cube_slices obs" "mat_cols q1 = ?T"
      using q by (simp_all add: q1_def)
    ultimately show ?case by blast
  next
    case (2 i s)
    let ?s = "mat_at s (k, i + 1)"
    let ?p = "mat_at phi (?s, i + 1)"
    from 2(1) have i: "i + 1 < ?T" by linarith
    from 2(2) have sd: "mat_rows s = cube_slices obs" "mat_cols s = ?T"
      and last: "mat_at s (k, ?T - 1) = im"
      and low: "\<forall>t. Suc i \<le> t \<and> t < ?T \<longrightarrow> mat_at s (k, t) < S"
      and link: "\<forall>t. Suc i \<le> t \<and> t + 1 < ?T \<longrightarrow>
                   mat_at s (k, t) = mat_at phi (mat_at s (k, t + 1), t + 1)"
      and keep: "\<forall>k' t. k' \<noteq> k \<longrightarrow> mat_at s (k', t) = mat_at q (k', t)"
      by blast+
    have sS: "?s < S" using low i by simp
    have pS: "?p < S" using phi sS i by simp
    have g1: "mat_get s k (i + 1) = Inr ?s" using sd k i by (simp add: mat_get_def)
    have g2: "mat_get phi ?s (i + 1) = Inr ?p" using dims sS i by (simp add: mat_get_def)
    define s' where "s' = s\<lparr>mat_at := (mat_at s)((k, i) := ?p)\<rparr>"
    have s': "mat_set s k i ?p = Inr s'" using sd k i by (simp add: mat_set_def s'_def)
    have at: "mat_at s' (k, t) = mat_at s (k, t)" if "t \<noteq> i" for t
      using that by (simp add: s'_def)
    have ati: "mat_at s' (k, i) = ?p" by (simp add: s'_def)
    have "?I i s'"
    proof (intro conjI allI impI)
      show "mat_rows s' = cube_slices obs" "mat_cols s' = ?T" using sd by (simp_all add: s'_def)
      show "mat_at s' (k, ?T - 1) = im" using last i by (simp add: at)
    next
      fix t assume "i \<le> t \<and> t < ?T"
      then show "mat_at s' (k, t) < S" using low pS by (cases "t = i") (simp_all add: at ati)
    next
      fix t assume t: "i \<le> t \<and> t + 1 < ?T"
      show "mat_at s' (k, t) = mat_at phi (mat_at s' (k, t + 1), t + 1)"
      proof (cases "t = i")
        case True
        then show ?thesis by (simp add: at ati)
      next
        case False
        then show ?thesis using link t by (simp add: at)
      qed
    next
      fix k' t assume "k' \<noteq> k"
      then show "mat_at s' (k', t) = mat_at q (k', t)" using keep by (simp add: s'_def)
    qed
    moreover have "(\<lambda>t q.
                   and_then (mat_get q k (t + 1)) (\<lambda>s.
                   and_then (mat_get phi s (t + 1)) (\<lambda>p.
                   mat_set q k t p))) i s = Inr s'"
      using g1 g2 s' by simp
    ultimately show ?case by blast
  qed
  then obtain q2 where q2: "for_each (rev [0..<?T - 1]) (\<lambda>t q.
                   and_then (mat_get q k (t + 1)) (\<lambda>s.
                   and_then (mat_get phi s (t + 1)) (\<lambda>p.
                   mat_set q k t p))) q1 = Inr q2 \<and> ?I 0 q2" ..
  note q2 = conjunct1[OF this] conjunct2[OF this]
  have run: "viterbi_path obs k delta phi (q, logp) = Inr (q2, logp[k := ?d ! im])"
    unfolding viterbi_path_def using T c im(1) q1 q2(1) q k by simp
  from q2(2) have q2_dims: "mat_rows q2 = cube_slices obs" "mat_cols q2 = ?T"
    and q2_last: "mat_at q2 (k, ?T - 1) = im"
    and q2_low: "\<forall>t<?T. mat_at q2 (k, t) < S"
    and q2_link: "\<forall>t. t + 1 < ?T \<longrightarrow> mat_at q2 (k, t) = mat_at phi (mat_at q2 (k, t + 1), t + 1)"
    and q2_keep: "\<forall>k' t. k' \<noteq> k \<longrightarrow> mat_at q2 (k', t) = mat_at q (k', t)"
    by blast+
  have "first_max (map (\<lambda>j. mat_at delta (j, ?T - 1)) [0..<mat_rows delta]) (mat_at q2 (k, ?T - 1))"
    using im(2) by (simp only: dims q2_last)
  moreover have "logp[k := ?d ! im] ! k =
      mat_at delta (mat_at q2 (k, ?T - 1), ?T - 1)"
    using q k by (simp only: q2_last dim) simp
  ultimately have tr: "viterbi_traced obs k delta phi q2 (logp[k := ?d ! im])"
    unfolding viterbi_traced_def using q2_link by blast
  have len: "length (logp[k := ?d ! im]) = cube_slices obs" using q by simp
  have keep: "\<forall>k' t. k' \<noteq> k \<longrightarrow> mat_at q2 (k', t) = mat_at q (k', t) \<and>
      logp[k := ?d ! im] ! k' = logp ! k'"
    using q2_keep by simp
  show ?thesis using run q2_dims len tr q2_low keep by blast
qed


lemma viterbi_traced_cong:
  assumes "\<forall>t. mat_at q' (k, t) = mat_at q (k, t)" "logp' ! k = logp ! k"
  shows "viterbi_traced obs k delta phi q' logp' = viterbi_traced obs k delta phi q logp"
  using assms by (simp add: viterbi_traced_def)

lemma viterbi_result_cong:
  assumes "\<forall>t. mat_at q' (k, t) = mat_at q (k, t)" "logp' ! k = logp ! k"
  shows "viterbi_result transition emission init obs lweights numberOfStates k q' logp' =
         viterbi_result transition emission init obs lweights numberOfStates k q logp"
  using assms viterbi_traced_cong[OF assms]
  by (simp add: viterbi_result_def split: sum.splits prod.splits)

lemma viterbi_sequence_post:
  assumes ok: "viterbi_ok transition emission init obs coef X numberOfStates"
    and lw: "mat_rows lweights = mat_cols coef" "mat_cols lweights = mat_rows X"
    and q: "mat_rows q = cube_slices obs" "mat_cols q = cube_cols obs"
      "length logp = cube_slices obs"
    and k: "k < cube_slices obs"
  shows "\<exists>q' logp'.
      and_then (viterbi_tables transition emission init obs lweights numberOfStates k)
             (\<lambda>(delta, phi). viterbi_path obs k delta phi (q, logp)) = Inr (q', logp') \<and>
      mat_rows q' = cube_slices obs \<and> mat_cols q' = cube_cols obs \<and>
      length logp' = cube_slices obs \<and>
      viterbi_result transition emission init obs lweights numberOfStates k q' logp' \<and>
      (\<forall>k' t. k' \<noteq> k \<longrightarrow> mat_at q' (k', t) = mat_at q (k', t) \<and> logp' ! k' = logp ! k')"
proof -
  let ?S = "cube_rows emission" and ?T = "cube_cols obs"
  have "\<exists>delta phi.
      viterbi_tables transition emission init obs lweights numberOfStates k = Inr (delta, phi) \<and>
      viterbi_filled transition emission init obs lweights numberOfStates k delta phi"
    using ok lw k by (intro viterbi_tables_post) (simp_all add: viterbi_ok_def)
  then obtain delta phi where
    t: "viterbi_tables transition emission init obs lweights numberOfStates k = Inr (delta, phi)"
    and f: "viterbi_filled transition emission init obs lweights numberOfStates k delta phi"
    by blast
  have dims: "mat_rows delta = ?S" "mat_cols delta = ?T" "mat_rows phi = ?S" "mat_cols phi = ?T"
    using f by (simp_all add: viterbi_filled_def)
  have phi: "\<forall>t. 1 \<le> t \<and> t < ?T \<longrightarrow> (\<forall>j<?S. mat_at phi (j, t) < ?S)"
    using viterbi_filled_phi_less[OF f] by blast
  have S: "0 < ?S" and T: "0 < ?T" using ok by (simp_all add: viterbi_ok_def)
  from viterbi_path_post[OF dims phi S T q k] obtain q' logp' where
    p: "viterbi_path obs k delta phi (q, logp) = Inr (q', logp')"
      "mat_rows q' = cube_slices obs" "mat_cols q' = ?T" "length logp' = cube_slices obs"
      "viterbi_traced obs k delta phi q' logp'"
      "\<forall>t<?T. mat_at q' (k, t) < ?S"
      "\<forall>k' t. k' \<noteq> k \<longrightarrow> mat_at q' (k', t) = mat_at q (k', t) \<and> logp' ! k' = logp ! k'"
    by blast
  have "viterbi_result transition emission init obs lweights numberOfStates k q' logp'"
    using t f p(5,6) by (simp add: viterbi_result_def)
  moreover have "and_then (viterbi_tables transition emission init obs lweights numberOfStates k)
             (\<lambda>(delta, phi). viterbi_path obs k delta phi (q, logp)) = Inr (q', logp')"
    using t p(1) by simp
  ultimately show ?thesis using p(2,3,4,7) by blast
qed

lemma viterbix_post:
  assumes ok: "viterbi_ok transition emission init obs coef X numberOfStates"
  shows "\<exists>lw q logp. mixture_lweights coef X = Inr lw \<and>
      viterbix transition emission init obs coef X numberOfStates = Inr (q, logp) \<and>
      mat_rows q = cube_slices obs \<and> mat_cols q = cube_cols obs \<and>
      length logp = cube_slices obs \<and>
      (\<forall>k<cube_slices obs.
         viterbi_result transition emission init obs lw numberOfStates k q logp)"
proof -
  let ?K = "cube_slices obs" and ?T = "cube_cols obs"
  have "mat_cols X = mat_rows coef" using ok by (simp add: viterbi_ok_def)
  from mixture_lweights_ok[OF this] obtain lw where
    lw: "mixture_lweights coef X = Inr lw" "mat_rows lw = mat_cols coef" "mat_cols lw = mat_rows X"
    by blast
  let ?R = "viterbi_result transition emission init obs lw numberOfStates"
  let ?I = "\<lambda>n s. case s of (q, logp) \<Rightarrow> mat_rows q = ?K \<and> mat_cols q = ?T \<and>
      length logp = ?K \<and> (\<forall>k<n. ?R k q logp)"
  have "\<exists>s'. for_each [0..<?K] (\<lambda>k ql.
           and_then (viterbi_tables transition emission init obs lw numberOfStates k)
             (\<lambda>(delta, phi). viterbi_path obs k delta phi ql))
           (new_mat ?K ?T 0, replicate ?K 0) = Inr s' \<and> ?I ?K s'"
  proof (rule for_each_upt_inv[where I = ?I], goal_cases)
    case 1
    show ?case by simp
  next
    case 2
    show ?case by (simp add: new_mat_def)
  next
    case (3 k s)
    obtain q logp where s: "s = (q, logp)" by (cases s)
    from 3(3) have q: "mat_rows q = ?K" "mat_cols q = ?T" "length logp = ?K"
      and earlier: "\<forall>k'<k. ?R k' q logp"
      by (simp_all add: s)
    from viterbi_sequence_post[OF ok lw(2,3) q 3(2)] obtain q' logp' where
      r: "and_then (viterbi_tables transition emission init obs lw numberOfStates k)
             (\<lambda>(delta, phi). viterbi_path obs k delta phi (q, logp)) = Inr (q', logp')"
        "mat_rows q' = ?K" "mat_cols q' = ?T" "length logp' = ?K"
        "?R k q' logp'"
        "\<forall>k' t. k' \<noteq> k \<longrightarrow> mat_at q' (k', t) = mat_at q (k', t) \<and> logp' ! k' = logp ! k'"
      by blast
    have "?R k' q' logp'" if "k' < k" for k'
    proof -
      have "\<forall>t. mat_at q' (k', t) = mat_at q (k', t)" "logp' ! k' = logp ! k'"
        using r(6) that by simp_all
      from viterbi_result_cong[OF this] show ?thesis using earlier that by simp
    qed
    then have "\<forall>k'<Suc k. ?R k' q' logp'" using r(5) by (auto simp: less_Suc_eq)
    then show ?case unfolding s using r(1-4) by simp
  qed
  then obtain q logp where
    "for_each [0..<?K] (\<lambda>k ql.
           and_then (viterbi_tables transition emission init obs lw numberOfStates k)
             (\<lambda>(delta, phi). viterbi_path obs k delta phi ql))
           (new_mat ?K ?T 0, replicate ?K 0) = Inr (q, logp)" "?I ?K (q, logp)"
    by auto
  then show ?thesis using lw(1) by (simp add: viterbix_def)
qed


lemma viterbi_result_elim:
  assumes "viterbi_result transition emission init obs lweights numberOfStates k q logp"
  obtains delta phi where
    "viterbi_tables transition emission init obs lweights numberOfStates k = Inr (delta, phi)"
    "viterbi_filled transition emission init obs lweights numberOfStates k delta phi"
    "viterbi_traced obs k delta phi q logp"
    "\<forall>t<cube_cols obs. mat_at q (k, t) < cube_rows emission"
  using assms by (auto simp: viterbi_result_def split: sum.splits prod.splits)

lemma first_max_upt:
  assumes "first_max (map f [0..<n]) p"
  shows "p < n" "\<And>i. i < n \<Longrightarrow> f i \<le> f p" "\<And>i. i < p \<Longrightarrow> f i < f p"
proof -
  show p: "p < n" using assms by (simp add: first_max_def)
  show "f i \<le> f p" if "i < n" for i
    using assms that p by (auto simp: first_max_def)
  show "f i < f p" if "i < p" for i
    using assms that p by (auto simp: first_max_def)
qed

lemma path_upper_bound:
  assumes f: "viterbi_filled transition emission init obs lweights numberOfStates k delta phi"
    and p: "\<forall>t\<le>n. p ! t < cube_rows emission" and n: "n < cube_cols obs"
  shows "init ! (p ! 0) + mat_at lweights (cluster_of numberOfStates (p ! 0), k) +
     viterbi_emission_sum emission obs (p ! 0) 0 k +
     (\<Sum>t = 1..<Suc n.
        mat_at transition (p ! (t - 1), p ! t) + viterbi_emission_sum emission obs (p ! t) t k)
     \<le> mat_at delta (p ! n, n)"
  using p n
proof (induction n)
  case 0
  then show ?case using f by (simp add: viterbi_filled_def)
next
  case (Suc n)
  let ?S = "cube_rows emission"
  let ?j = "p ! Suc n"
  have j: "?j < ?S" and i: "p ! n < ?S" using Suc.prems by simp_all
  have t: "1 \<le> Suc n \<and> Suc n < cube_cols obs" using Suc.prems by simp
  from f t j have fm: "first_max (map (\<lambda>i. mat_at delta (i, Suc n - 1) + mat_at transition (i, ?j))
                     [0..<?S]) (mat_at phi (?j, Suc n))"
    and eq: "mat_at delta (?j, Suc n) =
          mat_at delta (mat_at phi (?j, Suc n), Suc n - 1) +
          mat_at transition (mat_at phi (?j, Suc n), ?j) +
          viterbi_emission_sum emission obs ?j (Suc n) k"
    unfolding viterbi_filled_def by blast+
  from first_max_upt(2)[OF fm i]
  have le: "mat_at delta (p ! n, n) + mat_at transition (p ! n, ?j) \<le>
        mat_at delta (mat_at phi (?j, Suc n), n) + mat_at transition (mat_at phi (?j, Suc n), ?j)"
    by simp
  have IH: "init ! (p ! 0) + mat_at lweights (cluster_of numberOfStates (p ! 0), k) +
     viterbi_emission_sum emission obs (p ! 0) 0 k +
     (\<Sum>t = 1..<Suc n.
        mat_at transition (p ! (t - 1), p ! t) + viterbi_emission_sum emission obs (p ! t) t k)
     \<le> mat_at delta (p ! n, n)"
    using Suc.prems by (intro Suc.IH) simp_all
  show ?case using IH le eq by simp
qed

lemma path_attains:
  assumes f: "viterbi_filled transition emission init obs lweights numberOfStates k delta phi"
    and link: "\<forall>t. t + 1 < cube_cols obs \<longrightarrow> p ! t = mat_at phi (p ! (t + 1), t + 1)"
    and p: "\<forall>t<cube_cols obs. p ! t < cube_rows emission" and n: "n < cube_cols obs"
  shows "init ! (p ! 0) + mat_at lweights (cluster_of numberOfStates (p ! 0), k) +
     viterbi_emission_sum emission obs (p ! 0) 0 k +
     (\<Sum>t = 1..<Suc n.
        mat_at transition (p ! (t - 1), p ! t) + viterbi_emission_sum emission obs (p ! t) t k)
     = mat_at delta (p ! n, n)"
  using n
proof (induction n)
  case 0
  then show ?case using f p by (simp add: viterbi_filled_def)
next
  case (Suc n)
  let ?S = "cube_rows emission"
  let ?j = "p ! Suc n"
  have j: "?j < ?S" using Suc.prems p by simp
  have t: "1 \<le> Suc n \<and> Suc n < cube_cols obs" using Suc.prems by simp
  from f t j have eq: "mat_at delta (?j, Suc n) =
          mat_at delta (mat_at phi (?j, Suc n), Suc n - 1) +
          mat_at transition (mat_at phi (?j, Suc n), ?j) +
          viterbi_emission_sum emission obs ?j (Suc n) k"
    unfolding viterbi_filled_def by blast
  have pn: "mat_at phi (?j, Suc n) = p ! n" using link Suc.prems by simp
  have IH: "init ! (p ! 0) + mat_at lweights (cluster_of numberOfStates (p ! 0), k) +
     viterbi_emission_sum emission obs (p ! 0) 0 k +
     (\<Sum>t = 1..<Suc n.
        mat_at transition (p ! (t - 1), p ! t) + viterbi_emission_sum emission obs (p ! t) t k)
     = mat_at delta (p ! n, n)"
    using Suc.prems by (intro Suc.IH) simp
  show ?case using IH eq by (simp add: pn)
qed


lemma ex_viterbi_ok: "viterbi_ok ex_transition ex_emission ex_init ex_obs_viterbi ex_coef ex_X [2]"
  by (simp add: viterbi_ok_def ex_transition_def ex_emission_def ex_init_def
      ex_obs_viterbi_def ex_coef_def ex_X_def)


section \<open>The claims about viterbix\<close>

text \<open>
  C2.  For every sequence \<open>k\<close>, the path \<open>q(k, :)\<close> returned by \<open>viterbix\<close> is a sequence of
  states whose joint log-probability (cluster-weighted initial log-distribution,
  transition log-probabilities along the path, emission log-probabilities of all
  channels) is \<open>logp(k)\<close>, and no sequence of \<open>T\<close> states has a greater joint
  log-probability.
\<close>

theorem viterbix_path_optimal:
  assumes "viterbi_ok transition emission init obs coef X numberOfStates"
  shows "\<exists>lw q logp. mixture_lweights coef X = Inr lw \<and>
      viterbix transition emission init obs coef X numberOfStates = Inr (q, logp) \<and>
      (\<forall>k<cube_slices obs.
         (\<forall>t<cube_cols obs. mat_at q (k, t) < cube_rows emission) \<and>
         logp ! k = path_logprob transition emission init obs lw numberOfStates k
                      (map (\<lambda>t. mat_at q (k, t)) [0..<cube_cols obs]) \<and>
         (\<forall>p. length p = cube_cols obs \<and> (\<forall>t<cube_cols obs. p ! t < cube_rows emission) \<longrightarrow>
            path_logprob transition emission init obs lw numberOfStates k p \<le> logp ! k))"
proof -
  let ?S = "cube_rows emission" and ?T = "cube_cols obs"
  from viterbix_post[OF assms] obtain lw q logp where
    r: "mixture_lweights coef X = Inr lw"
      "viterbix transition emission init obs coef X numberOfStates = Inr (q, logp)"
      "\<forall>k<cube_slices obs.
         viterbi_result transition emission init obs lw numberOfStates k q logp"
    by blast
  have T: "0 < ?T" using assms by (simp add: viterbi_ok_def)
  have "(\<forall>t<?T. mat_at q (k, t) < ?S) \<and>
         logp ! k = path_logprob transition emission init obs lw numberOfStates k
                      (map (\<lambda>t. mat_at q (k, t)) [0..<?T]) \<and>
         (\<forall>p. length p = ?T \<and> (\<forall>t<?T. p ! t < ?S) \<longrightarrow>
            path_logprob transition emission init obs lw numberOfStates k p \<le> logp ! k)"
    if k: "k < cube_slices obs" for k
  proof -
    from r(3) k have "viterbi_result transition emission init obs lw numberOfStates k q logp"
      by simp
    then obtain delta phi where
      f: "viterbi_filled transition emission init obs lw numberOfStates k delta phi"
      and tr: "viterbi_traced obs k delta phi q logp"
      and qS: "\<forall>t<?T. mat_at q (k, t) < ?S"
      by (rule viterbi_result_elim)
    let ?path = "map (\<lambda>t. mat_at q (k, t)) [0..<?T]"
    have dS: "mat_rows delta = ?S" using f by (simp add: viterbi_filled_def)
    from tr have fm: "first_max (map (\<lambda>j. mat_at delta (j, ?T - 1)) [0..<?S])
          (mat_at q (k, ?T - 1))"
      and lp: "logp ! k = mat_at delta (mat_at q (k, ?T - 1), ?T - 1)"
      and link: "\<forall>t. t + 1 < ?T \<longrightarrow> mat_at q (k, t) = mat_at phi (mat_at q (k, t + 1), t + 1)"
      unfolding viterbi_traced_def dS by blast+
    have pl: "?path ! t = mat_at q (k, t)" if "t < ?T" for t using that by simp
    have "init ! (?path ! 0) + mat_at lw (cluster_of numberOfStates (?path ! 0), k) +
       viterbi_emission_sum emission obs (?path ! 0) 0 k +
       (\<Sum>t = 1..<Suc (?T - 1).
          mat_at transition (?path ! (t - 1), ?path ! t) +
          viterbi_emission_sum emission obs (?path ! t) t k)
       = mat_at delta (?path ! (?T - 1), ?T - 1)"
    proof (rule path_attains[OF f])
      show "\<forall>t. t + 1 < ?T \<longrightarrow> ?path ! t = mat_at phi (?path ! (t + 1), t + 1)"
        using link by (simp add: pl)
      show "\<forall>t<?T. ?path ! t < ?S" using qS by (simp add: pl)
      show "?T - 1 < ?T" using T by simp
    qed
    then have attained: "path_logprob transition emission init obs lw numberOfStates k ?path =
        logp ! k"
      using T lp by (simp add: path_logprob_def pl)
    have best: "path_logprob transition emission init obs lw numberOfStates k p \<le> logp ! k"
      if p: "length p = ?T" "\<forall>t<?T. p ! t < ?S" for p
    proof -
      have "init ! (p ! 0) + mat_at lw (cluster_of numberOfStates (p ! 0), k) +
         viterbi_emission_sum emission obs (p ! 0) 0 k +
         (\<Sum>t = 1..<Suc (?T - 1).
            mat_at transition (p ! (t - 1), p ! t) + viterbi_emission_sum emission obs (p ! t) t k)
         \<le> mat_at delta (p ! (?T - 1), ?T - 1)"
        using p(2) T by (intro path_upper_bound[OF f]) simp_all
      then have "path_logprob transition emission init obs lw numberOfStates k p
          \<le> mat_at delta (p ! (?T - 1), ?T - 1)"
        using T p(1) by (simp add: path_logprob_def)
      also have "\<dots> \<le> mat_at delta (mat_at q (k, ?T - 1), ?T - 1)"
        using first_max_upt(2)[OF fm, of "p ! (?T - 1)"] p(2) T by simp
      finally show ?thesis using lp by simp
    qed
    show ?thesis using qS attained best by simp
  qed
  then show ?thesis using r(1,2) by blast
qed

theorem viterbix_path_optimal_witness:
  "viterbi_ok ex_transition ex_emission ex_init ex_obs_viterbi ex_coef ex_X [2] \<and>
   (\<exists>lw q logp. mixture_lweights ex_coef ex_X = Inr lw \<and>
      viterbix ex_transition ex_emission ex_init ex_obs_viterbi ex_coef ex_X [2] = Inr (q, logp) \<and>
      logp ! 0 = path_logprob ex_transition ex_emission ex_init ex_obs_viterbi lw [2] 0
                   [mat_at q (0, 0), mat_at q (0, 1)] \<and>
      path_logprob ex_transition ex_emission ex_init ex_obs_viterbi lw [2] 0 [1, 1] \<le> logp ! 0)"
proof -
  from viterbix_path_optimal[OF ex_viterbi_ok] obtain lw q logp where
    r: "mixture_lweights ex_coef ex_X = Inr lw"
      "viterbix ex_transition ex_emission ex_init ex_obs_viterbi ex_coef ex_X [2] = Inr (q, logp)"
      "\<forall>k<cube_slices ex_obs_viterbi.
         (\<forall>t<cube_cols ex_obs_viterbi. mat_at q (k, t) < cube_rows ex_emission) \<and>
         logp ! k = path_logprob ex_transition ex_emission ex_init ex_obs_viterbi lw [2] k
                      (map (\<lambda>t. mat_at q (k, t)) [0..<cube_cols ex_obs_viterbi]) \<and>
         (\<forall>p. length p = cube_cols ex_obs_viterbi \<and>
               (\<forall>t<cube_cols ex_obs_viterbi. p ! t < cube_rows ex_emission) \<longrightarrow>
            path_logprob ex_transition ex_emission ex_init ex_obs_viterbi lw [2] k p \<le> logp ! k)"
    by blast
  have c: "cube_cols ex_obs_viterbi = 2" "cube_slices ex_obs_viterbi = 1" "cube_rows ex_emission = 2"
    by (simp_all add: ex_obs_viterbi_def ex_emission_def)
  have u: "[0..<2] = [0, 1]" by (simp add: upt_rec numeral_2_eq_2)
  from r(3) have 1: "logp ! 0 = path_logprob ex_transition ex_emission ex_init ex_obs_viterbi lw [2] 0
                   [mat_at q (0, 0), mat_at q (0, 1)]"
    by (simp add: c u)
  from r(3) have "length [1, 1::nat] = 2 \<and> (\<forall>t<2. [1, 1::nat] ! t < 2) \<longrightarrow>
     path_logprob ex_transition ex_emission ex_init ex_obs_viterbi lw [2] 0 [1, 1] \<le> logp ! 0"
    unfolding c by blast
  then have 2: "path_logprob ex_transition ex_emission ex_init ex_obs_viterbi lw [2] 0 [1, 1] \<le> logp ! 0"
    by (simp add: less_Suc_eq numeral_2_eq_2)
  show ?thesis using ex_viterbi_ok r(1,2) 1 2 by blast
qed



text \<open>
  C3.  For every time \<open>t\<close> from \<open>1\<close> to \<open>T - 1\<close> and every state \<open>j\<close>, the back pointer
  \<open>phi(j, t)\<close> is a predecessor state that attains the maximum of
  \<open>delta(i, t - 1) + transition(i, j)\<close>, and it is the lowest index among the states
  that attain it.
\<close>

theorem viterbix_backpointer_lowest_index:
  assumes "viterbi_ok transition emission init obs coef X numberOfStates"
    and "k < cube_slices obs"
  shows "\<exists>lw delta phi. mixture_lweights coef X = Inr lw \<and>
      viterbi_tables transition emission init obs lw numberOfStates k = Inr (delta, phi) \<and>
      (\<forall>t. 1 \<le> t \<and> t < cube_cols obs \<longrightarrow> (\<forall>j<cube_rows emission.
         mat_at phi (j, t) < cube_rows emission \<and>
         (\<forall>i<cube_rows emission.
            mat_at delta (i, t - 1) + mat_at transition (i, j) \<le>
            mat_at delta (mat_at phi (j, t), t - 1) + mat_at transition (mat_at phi (j, t), j)) \<and>
         (\<forall>i<cube_rows emission.
            mat_at delta (i, t - 1) + mat_at transition (i, j) =
            mat_at delta (mat_at phi (j, t), t - 1) + mat_at transition (mat_at phi (j, t), j)
            \<longrightarrow> mat_at phi (j, t) \<le> i)))"
proof -
  let ?S = "cube_rows emission"
  from viterbix_post[OF assms(1)] assms(2) obtain lw q logp where
    r: "mixture_lweights coef X = Inr lw"
      "viterbi_result transition emission init obs lw numberOfStates k q logp"
    by blast
  from r(2) obtain delta phi where
    t: "viterbi_tables transition emission init obs lw numberOfStates k = Inr (delta, phi)"
    and f: "viterbi_filled transition emission init obs lw numberOfStates k delta phi"
    by (rule viterbi_result_elim)
  have "mat_at phi (j, t) < ?S \<and>
         (\<forall>i<?S.
            mat_at delta (i, t - 1) + mat_at transition (i, j) \<le>
            mat_at delta (mat_at phi (j, t), t - 1) + mat_at transition (mat_at phi (j, t), j)) \<and>
         (\<forall>i<?S.
            mat_at delta (i, t - 1) + mat_at transition (i, j) =
            mat_at delta (mat_at phi (j, t), t - 1) + mat_at transition (mat_at phi (j, t), j)
            \<longrightarrow> mat_at phi (j, t) \<le> i)"
    if tj: "1 \<le> t \<and> t < cube_cols obs" "j < ?S" for t j
  proof -
    from f tj have fm: "first_max (map (\<lambda>i. mat_at delta (i, t - 1) + mat_at transition (i, j))
                     [0..<?S]) (mat_at phi (j, t))"
      unfolding viterbi_filled_def by blast
    note fm1 = first_max_upt[OF fm]
    show ?thesis
    proof (intro conjI allI impI)
      show "mat_at phi (j, t) < ?S" by (rule fm1(1))
    next
      fix i assume "i < ?S"
      then show "mat_at delta (i, t - 1) + mat_at transition (i, j) \<le>
            mat_at delta (mat_at phi (j, t), t - 1) + mat_at transition (mat_at phi (j, t), j)"
        by (rule fm1(2))
    next
      fix i assume "i < ?S" and e: "mat_at delta (i, t - 1) + mat_at transition (i, j) =
            mat_at delta (mat_at phi (j, t), t - 1) + mat_at transition (mat_at phi (j, t), j)"
      show "mat_at phi (j, t) \<le> i"
      proof (rule ccontr)
        assume "\<not> mat_at phi (j, t) \<le> i"
        then have "i < mat_at phi (j, t)" by simp
        from fm1(3)[OF this] e show False by simp
      qed
    qed
  qed
  then show ?thesis using r(1) t by blast
qed

theorem viterbix_backpointer_lowest_index_witness:
  "viterbi_ok ex_transition ex_emission ex_init ex_obs_viterbi ex_coef ex_X [2] \<and>
   (0::nat) < cube_slices ex_obs_viterbi \<and>
   (\<exists>lw delta phi. mixture_lweights ex_coef ex_X = Inr lw \<and>
      viterbi_tables ex_transition ex_emission ex_init ex_obs_viterbi lw [2] 0 = Inr (delta, phi) \<and>
      mat_at phi (0, 1) < 2 \<and>
      mat_at delta (0, 0) + mat_at ex_transition (0, 0) \<le>
        mat_at delta (mat_at phi (0, 1), 0) + mat_at ex_transition (mat_at phi (0, 1), 0))"
proof -
  have k: "(0::nat) < cube_slices ex_obs_viterbi" by (simp add: ex_obs_viterbi_def)
  from viterbix_backpointer_lowest_index[OF ex_viterbi_ok k] obtain lw delta phi where
    r: "mixture_lweights ex_coef ex_X = Inr lw"
      "viterbi_tables ex_transition ex_emission ex_init ex_obs_viterbi lw [2] 0 = Inr (delta, phi)"
      "\<forall>t. 1 \<le> t \<and> t < cube_cols ex_obs_viterbi \<longrightarrow> (\<forall>j<cube_rows ex_emission.
         mat_at phi (j, t) < cube_rows ex_emission \<and>
         (\<forall>i<cube_rows ex_emission.
            mat_at delta (i, t - 1) + mat_at ex_transition (i, j) \<le>
            mat_at delta (mat_at phi (j, t), t - 1) + mat_at ex_transition (mat_at phi (j, t), j)))"
    by blast
  have c: "cube_cols ex_obs_viterbi = 2" "cube_rows ex_emission = 2"
    by (simp_all add: ex_obs_viterbi_def ex_emission_def)
  from r(3) have "mat_at phi (0, 1) < 2 \<and>
      (\<forall>i<2. mat_at delta (i, 1 - 1) + mat_at ex_transition (i, 0) \<le>
        mat_at delta (mat_at phi (0, 1), 1 - 1) + mat_at ex_transition (mat_at phi (0, 1), 0))"
    unfolding c by simp
  then have "mat_at phi (0, 1) < 2 \<and>
      mat_at delta (0, 0) + mat_at ex_transition (0, 0) \<le>
        mat_at delta (mat_at phi (0, 1), 0) + mat_at ex_transition (mat_at phi (0, 1), 0)"
    by simp
  then show ?thesis using ex_viterbi_ok k r(1,2) by blast
qed


text \<open>
  C4.  For coefficients and covariates whose dimensions fit, with at least one cluster,
  the mixture weights of every sequence \<open>k\<close> sum to one over the clusters before the
  logarithm is taken, and so do the exponentials of the log-weights.
\<close>

theorem mixture_weights_sum_to_one:
  assumes "mat_cols X = mat_rows coef" and "0 < mat_cols coef" and "k < mat_rows X"
  shows "\<exists>w lw. mixture_weights coef X = Inr w \<and> mixture_lweights coef X = Inr lw \<and>
      mat_rows w = mat_cols coef \<and> mat_rows lw = mat_cols coef \<and>
      (\<Sum>c<mat_cols coef. mat_at w (c, k)) = 1 \<and>
      (\<Sum>c<mat_cols coef. exp (mat_at lw (c, k))) = 1"
proof -
  let ?z = "linear_predictor coef X k"
  let ?M = "mat_cols coef"
  from mixture_weights_ok[OF assms(1)] obtain w where w: "mixture_weights coef X = Inr w"
    "mat_rows w = ?M"
    "\<forall>c k. k < mat_rows X \<longrightarrow>
        mat_at w (c, k) = exp (linear_predictor coef X k c) /
                          (\<Sum>c'<?M. exp (linear_predictor coef X k c'))"
    by blast
  have wk: "mat_at w (c, k) = exp (?z c) / (\<Sum>c'<?M. exp (?z c'))" for c
    using w(3) assms(3) by simp
  have lw: "mixture_lweights coef X = Inr (mat_log w)"
    using w(1) by (simp add: mixture_lweights_def)
  have s1: "(\<Sum>c<?M. mat_at w (c, k)) = 1"
    unfolding wk by (rule softmax_sum_one[OF assms(2)])
  have "exp (mat_at (mat_log w) (c, k)) = mat_at w (c, k)" for c
    using softmax_pos[OF assms(2), of ?z c] by (simp add: mat_log_def wk)
  then have s2: "(\<Sum>c<?M. exp (mat_at (mat_log w) (c, k))) = 1" using s1 by simp
  have "mat_rows (mat_log w) = ?M" using w(2) by (simp add: mat_log_def)
  then show ?thesis using w(1,2) lw s1 s2 by blast
qed

theorem mixture_weights_sum_to_one_witness:
  "mat_cols ex_X = mat_rows ex_coef \<and> 0 < mat_cols ex_coef \<and> 0 < mat_rows ex_X \<and>
   (\<exists>w lw. mixture_weights ex_coef ex_X = Inr w \<and> mixture_lweights ex_coef ex_X = Inr lw \<and>
      mat_at w (0, 0) = 1 \<and> exp (mat_at lw (0, 0)) = 1)"
proof -
  have h: "mat_cols ex_X = mat_rows ex_coef" "0 < mat_cols ex_coef" "0 < mat_rows ex_X"
    by (simp_all add: ex_X_def ex_coef_def)
  from mixture_weights_sum_to_one[OF h] obtain w lw where
    r: "mixture_weights ex_coef ex_X = Inr w" "mixture_lweights ex_coef ex_X = Inr lw"
      "(\<Sum>c<mat_cols ex_coef. mat_at w (c, 0)) = 1"
      "(\<Sum>c<mat_cols ex_coef. exp (mat_at lw (c, 0))) = 1"
    by blast
  have "mat_cols ex_coef = 1" by (simp add: ex_coef_def)
  with r(3,4) have "mat_at w (0, 0) = 1" "exp (mat_at lw (0, 0)) = 1" by simp_all
  then show ?thesis using h r(1,2) by blast
qed


text \<open>
  C5.  For every sequence \<open>k\<close>, the last state \<open>q(k, T - 1)\<close> is the index of the maximum
  of the last column of \<open>delta\<close>, \<open>logp(k)\<close> is that maximum, and every earlier state is
  the back pointer of its successor: \<open>q(k, t) = phi(q(k, t + 1), t + 1)\<close>.
\<close>

theorem viterbix_termination_and_backtracking:
  assumes "viterbi_ok transition emission init obs coef X numberOfStates"
  shows "\<exists>lw q logp. mixture_lweights coef X = Inr lw \<and>
      viterbix transition emission init obs coef X numberOfStates = Inr (q, logp) \<and>
      (\<forall>k<cube_slices obs. \<exists>delta phi.
         viterbi_tables transition emission init obs lw numberOfStates k = Inr (delta, phi) \<and>
         arma_max (map (\<lambda>j. mat_at delta (j, cube_cols obs - 1)) [0..<cube_rows emission]) =
           Inr (logp ! k, mat_at q (k, cube_cols obs - 1)) \<and>
         mat_at q (k, cube_cols obs - 1) < cube_rows emission \<and>
         logp ! k = mat_at delta (mat_at q (k, cube_cols obs - 1), cube_cols obs - 1) \<and>
         logp ! k = Max ((\<lambda>j. mat_at delta (j, cube_cols obs - 1)) ` {..<cube_rows emission}) \<and>
         (\<forall>t. t + 1 < cube_cols obs \<longrightarrow>
            mat_at q (k, t) = mat_at phi (mat_at q (k, t + 1), t + 1)))"
proof -
  let ?S = "cube_rows emission" and ?T = "cube_cols obs"
  from viterbix_post[OF assms] obtain lw q logp where
    r: "mixture_lweights coef X = Inr lw"
      "viterbix transition emission init obs coef X numberOfStates = Inr (q, logp)"
      "\<forall>k<cube_slices obs.
         viterbi_result transition emission init obs lw numberOfStates k q logp"
    by blast
  have S: "0 < ?S" using assms by (simp add: viterbi_ok_def)
  have "\<exists>delta phi.
         viterbi_tables transition emission init obs lw numberOfStates k = Inr (delta, phi) \<and>
         arma_max (map (\<lambda>j. mat_at delta (j, ?T - 1)) [0..<?S]) =
           Inr (logp ! k, mat_at q (k, ?T - 1)) \<and>
         mat_at q (k, ?T - 1) < ?S \<and>
         logp ! k = mat_at delta (mat_at q (k, ?T - 1), ?T - 1) \<and>
         logp ! k = Max ((\<lambda>j. mat_at delta (j, ?T - 1)) ` {..<?S}) \<and>
         (\<forall>t. t + 1 < ?T \<longrightarrow> mat_at q (k, t) = mat_at phi (mat_at q (k, t + 1), t + 1))"
    if k: "k < cube_slices obs" for k
  proof -
    from r(3) k have "viterbi_result transition emission init obs lw numberOfStates k q logp"
      by simp
    then obtain delta phi where
      t: "viterbi_tables transition emission init obs lw numberOfStates k = Inr (delta, phi)"
      and f: "viterbi_filled transition emission init obs lw numberOfStates k delta phi"
      and tr: "viterbi_traced obs k delta phi q logp"
      by (rule viterbi_result_elim)
    let ?d = "map (\<lambda>j. mat_at delta (j, ?T - 1)) [0..<?S]"
    let ?q = "mat_at q (k, ?T - 1)"
    have dS: "mat_rows delta = ?S" using f by (simp add: viterbi_filled_def)
    from tr have fm: "first_max ?d ?q"
      and lp: "logp ! k = mat_at delta (?q, ?T - 1)"
      and link: "\<forall>t. t + 1 < ?T \<longrightarrow> mat_at q (k, t) = mat_at phi (mat_at q (k, t + 1), t + 1)"
      unfolding viterbi_traced_def dS by blast+
    note fm1 = first_max_upt[OF fm]
    have "?d \<noteq> []" using S by simp
    from arma_max_first_max[OF this] obtain im where
      im: "arma_max ?d = Inr (?d ! im, im)" "first_max ?d im" by blast
    have "im = ?q" using first_max_unique[OF im(2) fm] .
    then have am: "arma_max ?d = Inr (logp ! k, ?q)" using im(1) fm1(1) lp by simp
    have mx: "Max ((\<lambda>j. mat_at delta (j, ?T - 1)) ` {..<?S}) = mat_at delta (?q, ?T - 1)"
    proof (rule Max_eqI)
      show "finite ((\<lambda>j. mat_at delta (j, ?T - 1)) ` {..<?S})" by simp
      show "y \<le> mat_at delta (?q, ?T - 1)" if "y \<in> (\<lambda>j. mat_at delta (j, ?T - 1)) ` {..<?S}" for y
        using that fm1(2) by auto
      show "mat_at delta (?q, ?T - 1) \<in> (\<lambda>j. mat_at delta (j, ?T - 1)) ` {..<?S}"
        using fm1(1) by simp
    qed
    show ?thesis using t am fm1(1) lp mx link by simp
  qed
  then show ?thesis using r(1,2) by blast
qed

theorem viterbix_termination_and_backtracking_witness:
  "viterbi_ok ex_transition ex_emission ex_init ex_obs_viterbi ex_coef ex_X [2] \<and>
   (\<exists>lw q logp delta phi. mixture_lweights ex_coef ex_X = Inr lw \<and>
      viterbix ex_transition ex_emission ex_init ex_obs_viterbi ex_coef ex_X [2] = Inr (q, logp) \<and>
      viterbi_tables ex_transition ex_emission ex_init ex_obs_viterbi lw [2] 0 = Inr (delta, phi) \<and>
      logp ! 0 = mat_at delta (mat_at q (0, 1), 1) \<and>
      mat_at q (0, 0) = mat_at phi (mat_at q (0, 1), 1))"
proof -
  from viterbix_termination_and_backtracking[OF ex_viterbi_ok] obtain lw q logp where
    r: "mixture_lweights ex_coef ex_X = Inr lw"
      "viterbix ex_transition ex_emission ex_init ex_obs_viterbi ex_coef ex_X [2] = Inr (q, logp)"
      "\<forall>k<cube_slices ex_obs_viterbi. \<exists>delta phi.
         viterbi_tables ex_transition ex_emission ex_init ex_obs_viterbi lw [2] k = Inr (delta, phi) \<and>
         logp ! k = mat_at delta (mat_at q (k, cube_cols ex_obs_viterbi - 1),
                                   cube_cols ex_obs_viterbi - 1) \<and>
         (\<forall>t. t + 1 < cube_cols ex_obs_viterbi \<longrightarrow>
            mat_at q (k, t) = mat_at phi (mat_at q (k, t + 1), t + 1))"
    by blast
  have c: "cube_cols ex_obs_viterbi = 2" "cube_slices ex_obs_viterbi = 1"
    by (simp_all add: ex_obs_viterbi_def)
  from r(3) obtain delta phi where
    d: "viterbi_tables ex_transition ex_emission ex_init ex_obs_viterbi lw [2] 0 = Inr (delta, phi)"
      "logp ! 0 = mat_at delta (mat_at q (0, 2 - 1), 2 - 1)"
      "\<forall>t. t + 1 < 2 \<longrightarrow> mat_at q (0, t) = mat_at phi (mat_at q (0, t + 1), t + 1)"
    unfolding c by auto
  from d(3) have "mat_at q (0, 0) = mat_at phi (mat_at q (0, 1), 1)" by simp
  moreover from d(2) have "logp ! 0 = mat_at delta (mat_at q (0, 1), 1)" by simp
  ultimately show ?thesis using ex_viterbi_ok r(1,2) d(1) by blast
qed



section \<open>Sequences do not influence each other\<close>

lemma emission_sum_cong:
  assumes "cube_slices obs' = cube_slices obs"
    and "\<forall>r<cube_slices obs. cube_at obs' (k', t, r) = cube_at obs (k, t, r)"
  shows "emission_sum emission obs' i t k' = emission_sum emission obs i t k"
  using assms by (simp add: emission_sum_def)

lemma forward_filled_unique:
  assumes a: "forward_filled transition emission init obs a k n"
    and b: "forward_filled transition emission init obs' b k n"
    and C: "cube_slices obs' = cube_slices obs"
    and same: "\<forall>t<n. \<forall>r<cube_slices obs. cube_at obs' (k, t, r) = cube_at obs (k, t, r)"
    and t: "t < n" and i: "i < cube_rows emission"
  shows "cube_at a (i, t, k) = cube_at b (i, t, k)"
  using t i
proof (induction t arbitrary: i)
  case 0
  have "emission_sum emission obs' i 0 k = emission_sum emission obs i 0 k"
    using same 0 by (intro emission_sum_cong[OF C]) simp
  then show ?case using a b 0 by (simp add: forward_filled_def)
next
  case (Suc t)
  have es: "emission_sum emission obs' i (Suc t) k = emission_sum emission obs i (Suc t) k"
    using same Suc.prems by (intro emission_sum_cong[OF C]) simp
  have prev: "\<forall>j<cube_rows emission. cube_at a (j, Suc t - 1, k) = cube_at b (j, Suc t - 1, k)"
    using Suc.IH Suc.prems by simp
  have "forward_recursion transition emission obs a k (Suc t) i =
        forward_recursion transition emission obs b k (Suc t) i"
    by (rule forward_recursion_cong[OF prev])
  also have "\<dots> = forward_recursion transition emission obs' b k (Suc t) i"
    by (simp add: forward_recursion_def es)
  finally have "Inr (cube_at a (i, Suc t, k)) = (Inr (cube_at b (i, Suc t, k)) :: error + real)"
    using a b Suc.prems by (simp add: forward_filled_def)
  then show ?case by simp
qed

lemma cube_get_cong:
  assumes "cube_rows obs' = cube_rows obs" "cube_cols obs' = cube_cols obs"
    and "k < cube_slices obs" "k < cube_slices obs'"
    and "\<forall>r<cube_rows obs. \<forall>t<cube_cols obs. cube_at obs' (r, t, k) = cube_at obs (r, t, k)"
  shows "cube_get obs' r t k = cube_get obs r t k"
  using assms by (simp add: cube_get_def)

lemma viterbi_tables_cong:
  assumes "cube_rows obs' = cube_rows obs" "cube_cols obs' = cube_cols obs"
    and "k < cube_slices obs" "k < cube_slices obs'"
    and "\<forall>r<cube_rows obs. \<forall>t<cube_cols obs. cube_at obs' (r, t, k) = cube_at obs (r, t, k)"
    and lw: "mat_col lw' k = mat_col lw k"
  shows "viterbi_tables transition emission init obs' lw' numberOfStates k =
         viterbi_tables transition emission init obs lw numberOfStates k"
proof -
  note g = cube_get_cong[OF assms(1-5)]
  have e: "viterbi_entry transition emission obs' k t = viterbi_entry transition emission obs k t"
    for t
    by (intro ext) (simp add: viterbi_entry_def g)
  have i: "viterbi_init emission init obs' lw' numberOfStates k =
           viterbi_init emission init obs lw numberOfStates k"
    by (intro ext) (simp add: viterbi_init_def g lw)
  show ?thesis by (simp add: viterbi_tables_def e i assms(2))
qed

lemma viterbi_traced_unique:
  assumes a: "viterbi_traced obs k delta phi q logp"
    and b: "viterbi_traced obs' k delta phi q' logp'"
    and T: "cube_cols obs' = cube_cols obs" "0 < cube_cols obs"
  shows "logp ! k = logp' ! k" "\<And>t. t < cube_cols obs \<Longrightarrow> mat_at q (k, t) = mat_at q' (k, t)"
proof -
  let ?T = "cube_cols obs"
  from a b T have last: "mat_at q (k, ?T - 1) = mat_at q' (k, ?T - 1)"
    unfolding viterbi_traced_def by (metis first_max_unique)
  then show "logp ! k = logp' ! k" using a b T by (simp add: viterbi_traced_def)
  from a have la: "\<forall>t. t + 1 < ?T \<longrightarrow> mat_at q (k, t) = mat_at phi (mat_at q (k, t + 1), t + 1)"
    unfolding viterbi_traced_def by blast
  from b T have lb: "\<forall>t. t + 1 < ?T \<longrightarrow> mat_at q' (k, t) = mat_at phi (mat_at q' (k, t + 1), t + 1)"
    unfolding viterbi_traced_def by simp
  have "mat_at q (k, ?T - 1 - n) = mat_at q' (k, ?T - 1 - n)" for n
  proof (induction n)
    case 0
    then show ?case using last by simp
  next
    case (Suc n)
    show ?case
    proof (cases "Suc n \<le> ?T - 1")
      case True
      then have t: "(?T - 1 - Suc n) + 1 < ?T" "(?T - 1 - Suc n) + 1 = ?T - 1 - n" by linarith+
      have "mat_at q (k, ?T - 1 - Suc n) = mat_at phi (mat_at q (k, ?T - 1 - n), ?T - 1 - n)"
        using la t by metis
      moreover have "mat_at q' (k, ?T - 1 - Suc n) = mat_at phi (mat_at q' (k, ?T - 1 - n), ?T - 1 - n)"
        using lb t by metis
      ultimately show ?thesis using Suc.IH by simp
    next
      case False
      then have "?T - 1 - Suc n = ?T - 1 - n" by linarith
      then show ?thesis using Suc.IH by simp
    qed
  qed
  then have down: "mat_at q (k, ?T - 1 - n) = mat_at q' (k, ?T - 1 - n)" for n .
  show "mat_at q (k, t) = mat_at q' (k, t)" if "t < ?T" for t
  proof -
    have "?T - 1 - (?T - 1 - t) = t" using that by linarith
    with down[of "?T - 1 - t"] show ?thesis by simp
  qed
qed


lemma linear_predictor_cong:
  assumes "mat_cols X' = mat_cols X" "\<forall>l<mat_cols X. mat_at X' (k, l) = mat_at X (k, l)"
  shows "linear_predictor coef X' k c = linear_predictor coef X k c"
  using assms by (simp add: linear_predictor_def)

lemma mixture_lweights_col_cong:
  assumes lw: "mixture_lweights coef X = Inr lw" and lw': "mixture_lweights coef X' = Inr lw'"
    and d: "mat_cols X = mat_rows coef" "mat_cols X' = mat_rows coef"
    and k: "k < mat_rows X" "k < mat_rows X'"
    and same: "\<forall>l<mat_cols X. mat_at X' (k, l) = mat_at X (k, l)"
  shows "mat_col lw' k = mat_col lw k"
proof -
  from mixture_lweights_ok[OF d(1)] lw have 1: "mat_rows lw = mat_cols coef"
    "mat_cols lw = mat_rows X"
    "\<forall>c k. k < mat_rows X \<longrightarrow>
        mat_at lw (c, k) = ln (exp (linear_predictor coef X k c) /
                          (\<Sum>c'<mat_cols coef. exp (linear_predictor coef X k c')))"
    by auto
  from mixture_lweights_ok[OF d(2)] lw' have 2: "mat_rows lw' = mat_cols coef"
    "mat_cols lw' = mat_rows X'"
    "\<forall>c k. k < mat_rows X' \<longrightarrow>
        mat_at lw' (c, k) = ln (exp (linear_predictor coef X' k c) /
                          (\<Sum>c'<mat_cols coef. exp (linear_predictor coef X' k c')))"
    by auto
  have "linear_predictor coef X' k c = linear_predictor coef X k c" for c
    using d same by (intro linear_predictor_cong) simp_all
  then have "mat_at lw' (c, k) = mat_at lw (c, k)" for c
    using 1(3) 2(3) k by simp
  then show ?thesis using 1(1,2) 2(1,2) k by (simp add: mat_col_def)
qed


text \<open>
  C6.  Two batches that agree on the model parameters and on the observations of
  sequence \<open>k\<close> (for \<open>viterbix\<close> also on the coefficients and on row \<open>k\<close> of the
  covariates) give the same slice \<open>alpha(:, :, k)\<close>, respectively the same path
  \<open>q(k, :)\<close> and log-probability \<open>logp(k)\<close>, whatever the other sequences hold.
\<close>

theorem sequences_are_independent:
  "(forward_ok transition emission init obs alpha \<and>
    forward_ok transition emission init obs' alpha' \<and>
    cube_cols obs' = cube_cols obs \<and> k < cube_rows obs \<and> k < cube_rows obs' \<and>
    (\<forall>t<cube_cols obs. \<forall>r<cube_slices obs. cube_at obs' (k, t, r) = cube_at obs (k, t, r))
    \<longrightarrow> (\<exists>a a'. internalForward transition emission init obs alpha = Inr a \<and>
                internalForward transition emission init obs' alpha' = Inr a' \<and>
                (\<forall>i<cube_rows emission. \<forall>t<cube_cols obs.
                   cube_at a (i, t, k) = cube_at a' (i, t, k)))) \<and>
   (viterbi_ok transition emission init vobs coef X numberOfStates \<and>
    viterbi_ok transition emission init vobs' coef X' numberOfStates \<and>
    cube_cols vobs' = cube_cols vobs \<and> k < cube_slices vobs \<and> k < cube_slices vobs' \<and>
    (\<forall>r<cube_rows vobs. \<forall>t<cube_cols vobs. cube_at vobs' (r, t, k) = cube_at vobs (r, t, k)) \<and>
    (\<forall>l<mat_cols X. mat_at X' (k, l) = mat_at X (k, l))
    \<longrightarrow> (\<exists>q logp q' logp'.
           viterbix transition emission init vobs coef X numberOfStates = Inr (q, logp) \<and>
           viterbix transition emission init vobs' coef X' numberOfStates = Inr (q', logp') \<and>
           (\<forall>t<cube_cols vobs. mat_at q (k, t) = mat_at q' (k, t)) \<and> logp ! k = logp' ! k))"
proof (intro conjI impI)
  assume h: "forward_ok transition emission init obs alpha \<and>
    forward_ok transition emission init obs' alpha' \<and>
    cube_cols obs' = cube_cols obs \<and> k < cube_rows obs \<and> k < cube_rows obs' \<and>
    (\<forall>t<cube_cols obs. \<forall>r<cube_slices obs. cube_at obs' (k, t, r) = cube_at obs (k, t, r))"
  then have ok: "forward_ok transition emission init obs alpha"
    and ok': "forward_ok transition emission init obs' alpha'"
    and T: "cube_cols obs' = cube_cols obs" and k: "k < cube_rows obs" "k < cube_rows obs'"
    and same: "\<forall>t<cube_cols obs. \<forall>r<cube_slices obs. cube_at obs' (k, t, r) = cube_at obs (k, t, r)"
    by blast+
  from internalForward_post[OF ok] k obtain a where
    a: "internalForward transition emission init obs alpha = Inr a"
      "forward_filled transition emission init obs a k (cube_cols obs)"
    by blast
  from internalForward_post[OF ok'] k T obtain a' where
    a': "internalForward transition emission init obs' alpha' = Inr a'"
      "forward_filled transition emission init obs' a' k (cube_cols obs)"
    by auto
  have C: "cube_slices obs' = cube_slices obs" using ok ok' by (simp add: forward_ok_def)
  have "cube_at a (i, t, k) = cube_at a' (i, t, k)" if "i < cube_rows emission" "t < cube_cols obs"
    for i t
    by (rule forward_filled_unique[OF a(2) a'(2) C same that(2,1)])
  then show "\<exists>a a'. internalForward transition emission init obs alpha = Inr a \<and>
                internalForward transition emission init obs' alpha' = Inr a' \<and>
                (\<forall>i<cube_rows emission. \<forall>t<cube_cols obs.
                   cube_at a (i, t, k) = cube_at a' (i, t, k))"
    using a(1) a'(1) by blast
next
  assume h: "viterbi_ok transition emission init vobs coef X numberOfStates \<and>
    viterbi_ok transition emission init vobs' coef X' numberOfStates \<and>
    cube_cols vobs' = cube_cols vobs \<and> k < cube_slices vobs \<and> k < cube_slices vobs' \<and>
    (\<forall>r<cube_rows vobs. \<forall>t<cube_cols vobs. cube_at vobs' (r, t, k) = cube_at vobs (r, t, k)) \<and>
    (\<forall>l<mat_cols X. mat_at X' (k, l) = mat_at X (k, l))"
  then have ok: "viterbi_ok transition emission init vobs coef X numberOfStates"
    and ok': "viterbi_ok transition emission init vobs' coef X' numberOfStates"
    and T: "cube_cols vobs' = cube_cols vobs" and k: "k < cube_slices vobs" "k < cube_slices vobs'"
    and same: "\<forall>r<cube_rows vobs. \<forall>t<cube_cols vobs.
                 cube_at vobs' (r, t, k) = cube_at vobs (r, t, k)"
    and sameX: "\<forall>l<mat_cols X. mat_at X' (k, l) = mat_at X (k, l)"
    by blast+
  from viterbix_post[OF ok] k obtain lw q logp where
    r: "mixture_lweights coef X = Inr lw"
      "viterbix transition emission init vobs coef X numberOfStates = Inr (q, logp)"
      "viterbi_result transition emission init vobs lw numberOfStates k q logp"
    by blast
  from viterbix_post[OF ok'] k obtain lw' q' logp' where
    r': "mixture_lweights coef X' = Inr lw'"
      "viterbix transition emission init vobs' coef X' numberOfStates = Inr (q', logp')"
      "viterbi_result transition emission init vobs' lw' numberOfStates k q' logp'"
    by blast
  have R: "cube_rows vobs' = cube_rows vobs" using ok ok' by (simp add: viterbi_ok_def)
  have T0: "0 < cube_cols vobs" using ok by (simp add: viterbi_ok_def)
  have "mat_col lw' k = mat_col lw k"
    using ok ok' k sameX by (intro mixture_lweights_col_cong[OF r(1) r'(1)])
      (simp_all add: viterbi_ok_def)
  from viterbi_tables_cong[OF R T k same this]
  have tc: "viterbi_tables transition emission init vobs' lw' numberOfStates k =
            viterbi_tables transition emission init vobs lw numberOfStates k" .
  from r(3) obtain delta phi where
    t: "viterbi_tables transition emission init vobs lw numberOfStates k = Inr (delta, phi)"
    and tr: "viterbi_traced vobs k delta phi q logp"
    by (rule viterbi_result_elim)
  from r'(3) obtain delta' phi' where
    t': "viterbi_tables transition emission init vobs' lw' numberOfStates k = Inr (delta', phi')"
    and tr': "viterbi_traced vobs' k delta' phi' q' logp'"
    by (rule viterbi_result_elim)
  from t t' tc have "delta' = delta" "phi' = phi" by simp_all
  with tr' have tr'': "viterbi_traced vobs' k delta phi q' logp'" by simp
  note u = viterbi_traced_unique[OF tr tr'' T T0]
  show "\<exists>q logp q' logp'.
           viterbix transition emission init vobs coef X numberOfStates = Inr (q, logp) \<and>
           viterbix transition emission init vobs' coef X' numberOfStates = Inr (q', logp') \<and>
           (\<forall>t<cube_cols vobs. mat_at q (k, t) = mat_at q' (k, t)) \<and> logp ! k = logp' ! k"
    using r(2) r'(2) u by blast
qed

theorem sequences_are_independent_witness:
  "(\<exists>a a'. internalForward ex_transition ex_emission ex_init ex_obs_forward ex_alpha = Inr a \<and>
       internalForward ex_transition ex_emission ex_init ex_obs_forward2 ex_alpha2 = Inr a' \<and>
       cube_at a (0, 1, 0) = cube_at a' (0, 1, 0)) \<and>
   (\<exists>q logp q' logp'.
       viterbix ex_transition ex_emission ex_init ex_obs_viterbi ex_coef ex_X [2] = Inr (q, logp) \<and>
       viterbix ex_transition ex_emission ex_init ex_obs_viterbi2 ex_coef ex_X2 [2] = Inr (q', logp') \<and>
       mat_at q (0, 1) = mat_at q' (0, 1) \<and> logp ! 0 = logp' ! 0)"
proof -
  note ex = ex_transition_def ex_emission_def ex_init_def ex_obs_forward_def ex_alpha_def
    ex_obs_forward2_def ex_alpha2_def ex_obs_viterbi_def ex_obs_viterbi2_def ex_coef_def
    ex_X_def ex_X2_def
  have f: "forward_ok ex_transition ex_emission ex_init ex_obs_forward ex_alpha \<and>
    forward_ok ex_transition ex_emission ex_init ex_obs_forward2 ex_alpha2 \<and>
    cube_cols ex_obs_forward2 = cube_cols ex_obs_forward \<and>
    0 < cube_rows ex_obs_forward \<and> 0 < cube_rows ex_obs_forward2 \<and>
    (\<forall>t<cube_cols ex_obs_forward. \<forall>r<cube_slices ex_obs_forward.
       cube_at ex_obs_forward2 (0, t, r) = cube_at ex_obs_forward (0, t, r))"
    by (simp add: forward_ok_def ex)
  have v: "viterbi_ok ex_transition ex_emission ex_init ex_obs_viterbi ex_coef ex_X [2] \<and>
    viterbi_ok ex_transition ex_emission ex_init ex_obs_viterbi2 ex_coef ex_X2 [2] \<and>
    cube_cols ex_obs_viterbi2 = cube_cols ex_obs_viterbi \<and>
    0 < cube_slices ex_obs_viterbi \<and> 0 < cube_slices ex_obs_viterbi2 \<and>
    (\<forall>r<cube_rows ex_obs_viterbi. \<forall>t<cube_cols ex_obs_viterbi.
       cube_at ex_obs_viterbi2 (r, t, 0) = cube_at ex_obs_viterbi (r, t, 0)) \<and>
    (\<forall>l<mat_cols ex_X. mat_at ex_X2 (0, l) = mat_at ex_X (0, l))"
    by (simp add: viterbi_ok_def ex)
  note s = sequences_are_independent[of ex_transition ex_emission ex_init ex_obs_forward ex_alpha
      ex_obs_forward2 ex_alpha2 0 ex_obs_viterbi ex_coef ex_X "[2]" ex_obs_viterbi2 ex_X2]
  from s f obtain a a' where
    a: "internalForward ex_transition ex_emission ex_init ex_obs_forward ex_alpha = Inr a"
      "internalForward ex_transition ex_emission ex_init ex_obs_forward2 ex_alpha2 = Inr a'"
      "\<forall>i<cube_rows ex_emission. \<forall>t<cube_cols ex_obs_forward.
                   cube_at a (i, t, 0) = cube_at a' (i, t, 0)"
    by blast
  from s v obtain q logp q' logp' where
    q: "viterbix ex_transition ex_emission ex_init ex_obs_viterbi ex_coef ex_X [2] = Inr (q, logp)"
      "viterbix ex_transition ex_emission ex_init ex_obs_viterbi2 ex_coef ex_X2 [2] = Inr (q', logp')"
      "\<forall>t<cube_cols ex_obs_viterbi. mat_at q (0, t) = mat_at q' (0, t)" "logp ! 0 = logp' ! 0"
    by blast
  have "cube_at a (0, 1, 0) = cube_at a' (0, 1, 0)" using a(3) by (simp add: ex)
  moreover have "mat_at q (0, 1) = mat_at q' (0, 1)" using q(3) by (simp add: ex)
  ultimately show ?thesis using a(1,2) q(1,2,4) by blast
qed



section \<open>A single cluster\<close>







section \<open>The shape of the initial distribution\<close>

text \<open>
  C9, counterexample.  An initial distribution with one entry per cluster does not fit:
  with one cluster of two states and an \<open>init\<close> of length one, the addition in line 22
  has operands of lengths one and two.
\<close>

theorem init_per_cluster_counterexample:
  "viterbix ex_transition ex_emission [0] ex_obs_viterbi ex_coef ex_X [2] =
     Inl IncompatibleDimensions"
  by (simp add: viterbix_def mixture_lweights_def mixture_weights_def mat_mult_def mat_t_def
      mat_exp_def mat_log_def each_row_div_def col_sums_def ex_coef_def ex_X_def Let_def
      ex_obs_viterbi_def ex_emission_def ex_transition_def viterbi_tables_def viterbi_init_def
      mat_col_def reparma_def vec_add_def new_mat_def)


text \<open>
  C9, amended.  \<open>viterbix\<close> takes an initial log-distribution with one entry per state
  (its length is the sum of \<open>numberOfStates\<close>), and under that shape it returns a
  result.  The vector with one entry per cluster is the column of mixture log-weights:
  the expanded initial log-distribution of state \<open>j\<close> is \<open>init(j)\<close> plus the log-weight of
  the cluster of \<open>j\<close>, and the first column of \<open>delta\<close> is that plus the emission
  log-probabilities.
\<close>

theorem init_per_state:
  assumes "viterbi_ok transition emission init obs coef X numberOfStates"
  shows "length init = sum_list numberOfStates \<and>
     (\<exists>lw q logp. mixture_lweights coef X = Inr lw \<and> mat_rows lw = length numberOfStates \<and>
        viterbix transition emission init obs coef X numberOfStates = Inr (q, logp) \<and>
        (\<forall>k<cube_slices obs. \<exists>delta phi.
           viterbi_tables transition emission init obs lw numberOfStates k = Inr (delta, phi) \<and>
           (\<forall>j<sum_list numberOfStates.
              cluster_of numberOfStates j < length numberOfStates \<and>
              mat_at delta (j, 0) =
                (init ! j + mat_at lw (cluster_of numberOfStates j, k)) +
                viterbi_emission_sum emission obs j 0 k)))"
proof -
  from viterbix_post[OF assms] obtain lw q logp where
    r: "mixture_lweights coef X = Inr lw"
      "viterbix transition emission init obs coef X numberOfStates = Inr (q, logp)"
      "\<forall>k<cube_slices obs.
         viterbi_result transition emission init obs lw numberOfStates k q logp"
    by blast
  have d: "mat_cols X = mat_rows coef" "length numberOfStates = mat_cols coef"
    "sum_list numberOfStates = cube_rows emission" "length init = cube_rows emission"
    using assms by (simp_all add: viterbi_ok_def)
  from mixture_lweights_ok[OF d(1)] r(1) have rows: "mat_rows lw = length numberOfStates"
    using d(2) by auto
  have "\<exists>delta phi.
           viterbi_tables transition emission init obs lw numberOfStates k = Inr (delta, phi) \<and>
           (\<forall>j<sum_list numberOfStates.
              cluster_of numberOfStates j < length numberOfStates \<and>
              mat_at delta (j, 0) =
                (init ! j + mat_at lw (cluster_of numberOfStates j, k)) +
                viterbi_emission_sum emission obs j 0 k)"
    if k: "k < cube_slices obs" for k
  proof -
    from r(3) k have "viterbi_result transition emission init obs lw numberOfStates k q logp"
      by simp
    then obtain delta phi where
      t: "viterbi_tables transition emission init obs lw numberOfStates k = Inr (delta, phi)"
      and f: "viterbi_filled transition emission init obs lw numberOfStates k delta phi"
      by (rule viterbi_result_elim)
    from f have "\<forall>j<sum_list numberOfStates. mat_at delta (j, 0) =
                (init ! j + mat_at lw (cluster_of numberOfStates j, k)) +
                viterbi_emission_sum emission obs j 0 k"
      unfolding viterbi_filled_def d(3) by blast
    then show ?thesis using t cluster_of_less by blast
  qed
  then show ?thesis using r(1,2) rows d(3,4) by auto
qed

theorem init_per_state_witness:
  "viterbi_ok ex_transition ex_emission ex_init ex_obs_viterbi ex_coef ex_X [2] \<and>
   length ex_init = 2 \<and>
   (\<exists>lw delta phi. mixture_lweights ex_coef ex_X = Inr lw \<and> mat_rows lw = 1 \<and>
      viterbi_tables ex_transition ex_emission ex_init ex_obs_viterbi lw [2] 0 = Inr (delta, phi) \<and>
      mat_at delta (1, 0) = (ln (4 / 10) + mat_at lw (0, 0)) + ln (4 / 10))"
proof -
  from init_per_state[OF ex_viterbi_ok] obtain lw where
    r: "mixture_lweights ex_coef ex_X = Inr lw" "mat_rows lw = length [2::nat]"
      "\<forall>k<cube_slices ex_obs_viterbi. \<exists>delta phi.
           viterbi_tables ex_transition ex_emission ex_init ex_obs_viterbi lw [2] k = Inr (delta, phi) \<and>
           (\<forall>j<sum_list [2].
              cluster_of [2] j < length [2::nat] \<and>
              mat_at delta (j, 0) =
                (ex_init ! j + mat_at lw (cluster_of [2] j, k)) +
                viterbi_emission_sum ex_emission ex_obs_viterbi j 0 k)"
    by blast
  have "(0::nat) < cube_slices ex_obs_viterbi" by (simp add: ex_obs_viterbi_def)
  with r(3) obtain delta phi where
    d: "viterbi_tables ex_transition ex_emission ex_init ex_obs_viterbi lw [2] 0 = Inr (delta, phi)"
      "\<forall>j<sum_list [2]. mat_at delta (j, 0) =
                (ex_init ! j + mat_at lw (cluster_of [2] j, 0)) +
                viterbi_emission_sum ex_emission ex_obs_viterbi j 0 0"
    by blast
  from d(2) have "mat_at delta (1, 0) = (ln (4 / 10) + mat_at lw (0, 0)) + ln (4 / 10)"
    by (simp add: ex_init_def viterbi_emission_sum_def ex_emission_def ex_obs_viterbi_def)
  moreover have "length ex_init = 2" by (simp add: ex_init_def)
  ultimately show ?thesis using ex_viterbi_ok r(1,2) d(1) by auto
qed


section \<open>Inputs that violate a precondition\<close>










section \<open>Minus infinity in one step of the recursions\<close>







lemma add_NaN_right: "dbl_add x NaN = NaN"
  by (cases x) auto




















end
